theory Spec2Isabelle
  imports Complex_Main "HOL-Library.Word" "HOL-Library.Sublist" "HOL-Library.Log_Nat"
begin

unbundle bit_operations_syntax

section \<open>Platform values\<close>

text \<open>
  The program is one TypeScript file, \<^verbatim>\<open>src/App.tsx\<close>. Bytes of an \<^verbatim>\<open>ArrayBuffer\<close> are
  8-bit words, the elements of an \<^verbatim>\<open>Int16Array\<close> are 16-bit words read as two's complement.
  A sample that the audio code computes is either a real number or \<^verbatim>\<open>NaN\<close> (what
  \<^verbatim>\<open>undefined / 32768.0\<close> gives); every quotient \<open>k / 32768\<close> with \<open>k\<close> a 16-bit integer
  is representable exactly, as a number and in a \<^verbatim>\<open>Float32Array\<close> slot. Clock values are
  real numbers.
\<close>

type_synonym byte = "8 word"
type_synonym int16 = "16 word"

datatype jsnum = Num real | NaN

text \<open>
  A JavaScript number is a double: a real number with a significand of 53 bits. The
  result of \<^verbatim>\<open>+\<close>, \<^verbatim>\<open>*\<close> and \<^verbatim>\<open>/\<close> is the exact result rounded to the nearest
  double, ties to the even significand. \<open>binaryExponent x\<close> is the exponent \<open>e\<close> with
  \<open>2 ^ e \<le> x < 2 ^ (e + 1)\<close>, for \<open>x > 0\<close>; the numbers of \<open>p\<close> bits of that size are
  the multiples of \<open>2 ^ (e - p + 1)\<close>. A \<^verbatim>\<open>float\<close> of the Web Audio interface has 24
  bits. Not modelled are the overflow of a double to \<^verbatim>\<open>Infinity\<close> (from \<open>2 ^ 1024\<close> on),
  the coarser grid of the subnormal numbers (below \<open>2 ^ -1022\<close>) and a division by zero,
  which gives \<open>0\<close> here. The rounding is written out where the program computes with
  numbers of any size: the frame count of the decoder, the sizes and rates in the WAV
  header, the index of the random theme. Array indices, lengths and loop counters are
  natural numbers; an array holds fewer than \<open>2 ^ 53\<close> elements, so they are exact.
\<close>

definition binaryExponent :: "real \<Rightarrow> int" where
  "binaryExponent x = (if 1 \<le> x then bitlen \<lfloor>x\<rfloor> - 1 else - bitlen (\<lceil>1 / x\<rceil> - 1))"

definition roundTiesToEven :: "real \<Rightarrow> int" where
  "roundTiesToEven y =
     (let f = \<lfloor>y\<rfloor> in
      if y - of_int f < 1 / 2 then f
      else if 1 / 2 < y - of_int f then f + 1
      else if even f then f else f + 1)"

definition roundToPrecision :: "nat \<Rightarrow> real \<Rightarrow> real" where
  "roundToPrecision p x =
     (if x = 0 then 0
      else let u = 2 powi (binaryExponent \<bar>x\<bar> - int p + 1)
           in u * of_int (roundTiesToEven (x / u)))"

definition toDouble :: "real \<Rightarrow> real" where
  "toDouble x = roundToPrecision 53 x"

definition toFloat :: "real \<Rightarrow> real" where
  "toFloat x = roundToPrecision 24 x"

definition jsAdd :: "real \<Rightarrow> real \<Rightarrow> real" where
  "jsAdd a b = toDouble (a + b)"

definition jsMul :: "real \<Rightarrow> real \<Rightarrow> real" where
  "jsMul a b = toDouble (a * b)"

definition jsDiv :: "real \<Rightarrow> real \<Rightarrow> real" where
  "jsDiv a b = toDouble (a / b)"

text \<open>
  Every exception and rejected promise of the program is a value of one type:
  \<^verbatim>\<open>RangeError\<close> from the \<^verbatim>\<open>Int16Array\<close> constructor on a buffer of odd byte length,
  \<^verbatim>\<open>TypeError\<close> from \<^verbatim>\<open>createBuffer\<close> on a sample rate too large for a float,
  \<^verbatim>\<open>NotSupportedError\<close> from \<^verbatim>\<open>createBuffer\<close> on an argument that is zero or outside the
  range of the implementation, the error of an implementation that is out of memory,
  \<^verbatim>\<open>IndexSizeError\<close> from \<^verbatim>\<open>getChannelData\<close>, the two rejections
  of \<^verbatim>\<open>pcmToWav\<close> (the reader's error event, and
  \<^verbatim>\<open>Error("Failed to read PCM data.")\<close>), a failed call of the generation service,
  \<^verbatim>\<open>Error("No audio data received.")\<close>, and a failed write to the object store.
\<close>

datatype error =
    RangeError | TypeError | NotSupportedError | OutOfMemory | IndexSizeError
  | ReaderError | FailedToReadPcmData
  | ServiceError | NoAudioDataReceived
  | StoreError

section \<open>PCM decoder\<close>

text \<open>
  \<^verbatim>\<open>new Int16Array(data.buffer)\<close>: a view of the bytes, two per element, in the byte order
  of the platform, which is little-endian wherever the program runs. The constructor
  raises \<^verbatim>\<open>RangeError\<close> when the byte length is odd. \<open>data\<close> is a view of a whole buffer
  (\<^verbatim>\<open>new Uint8Array(arrayBuffer)\<close>), so the bytes of \<^verbatim>\<open>data.buffer\<close> are those of \<open>data\<close>.
\<close>

fun int16s :: "byte list \<Rightarrow> int16 list" where
  "int16s (lo # hi # bs) = (push_bit 8 (ucast hi) OR ucast lo) # int16s bs"
| "int16s bs = []"

definition newInt16Array :: "byte list \<Rightarrow> error + int16 list" where
  "newInt16Array buf = (if even (length buf) then Inr (int16s buf) else Inl RangeError)"

text \<open>\<^verbatim>\<open>dataInt16[j]\<close>: the element as a number, \<^verbatim>\<open>undefined\<close> (here \<open>None\<close>) out of range.\<close>

definition int16At :: "int16 list \<Rightarrow> nat \<Rightarrow> int option" where
  "int16At xs j = (if j < length xs then Some (sint (xs ! j)) else None)"

text \<open>\<^verbatim>\<open>v / 32768.0\<close>\<close>

definition div32768 :: "int option \<Rightarrow> jsnum" where
  "div32768 v = (case v of None \<Rightarrow> NaN | Some k \<Rightarrow> Num (real_of_int k / 32768))"

text \<open>
  An \<^verbatim>\<open>AudioBuffer\<close>: its length in sample frames, its sample rate and one
  \<^verbatim>\<open>Float32Array\<close> per channel. \<^verbatim>\<open>duration\<close> is the length divided by the sample rate.
\<close>

record audio_buffer =
  bufLength :: nat
  bufSampleRate :: real
  channelData :: "jsnum list list"

definition bufDuration :: "audio_buffer \<Rightarrow> real" where
  "bufDuration b = real (bufLength b) / bufSampleRate b"

text \<open>
  What \<^verbatim>\<open>decodePcmData\<close> uses of its argument \<^verbatim>\<open>ctx\<close>, an \<^verbatim>\<open>AudioContext\<close>: the limits of
  the implementation behind \<^verbatim>\<open>createBuffer\<close>. These are the largest channel count (at
  least 32 by the Web Audio API), the range of sample rates (it includes 8000 to 96000 Hz
  by the API; 3000 to 768000 Hz in Chromium), and \<open>unavailable\<close>: whether, and with what
  error, the implementation fails to provide a buffer of so many channels and frames,
  because the buffer is too long for it or there is no memory (\<^verbatim>\<open>NotSupportedError\<close> in
  Chromium).
\<close>

record audio_context =
  maxChannels :: nat
  minSampleRate :: nat
  maxSampleRate :: nat
  unavailable :: "nat \<Rightarrow> nat \<Rightarrow> error option"

text \<open>
  A context with the ranges of Chromium and memory for \<open>2 ^ 28\<close> samples in a buffer: the
  context of the examples.
\<close>

definition exampleContext :: audio_context where
  "exampleContext =
     \<lparr>maxChannels = 32, minSampleRate = 3000, maxSampleRate = 768000,
      unavailable = (\<lambda>channels frames.
        if channels * frames \<le> 2 ^ 28 then None else Some NotSupportedError)\<rparr>"

text \<open>
  \<^verbatim>\<open>ctx.createBuffer(numberOfChannels, length, sampleRate)\<close>. The arguments are converted
  first. The channel count and the length are \<^verbatim>\<open>unsigned long\<close> in the interface: an
  argument loses its fraction and is taken modulo \<open>2 ^ 32\<close>. The sample rate is a
  \<^verbatim>\<open>float\<close>: it is rounded to 24 bits, and a rate that rounds to \<open>2 ^ 128\<close> or more raises
  \<^verbatim>\<open>TypeError\<close>. Then the call raises \<^verbatim>\<open>NotSupportedError\<close> when an argument is zero or
  when the channel count or the sample rate lies outside the range of the implementation,
  and the implementation's error when it cannot provide the buffer. The new buffer is
  silent.
\<close>

definition createBuffer :: "audio_context \<Rightarrow> nat \<Rightarrow> real \<Rightarrow> nat \<Rightarrow> error + audio_buffer" where
  "createBuffer ctx numberOfChannels len sampleRate =
     (let c = numberOfChannels mod 2 ^ 32;
          n = nat \<lfloor>len\<rfloor> mod 2 ^ 32;
          rate = toFloat (real sampleRate) in
      if 2 ^ 128 \<le> rate then Inl TypeError
      else if c = 0 \<or> maxChannels ctx < c \<or> n = 0 \<or>
              rate \<le> 0 \<or> rate < real (minSampleRate ctx) \<or> real (maxSampleRate ctx) < rate
           then Inl NotSupportedError
      else case unavailable ctx c n of
             Some e \<Rightarrow> Inl e
           | None \<Rightarrow> Inr \<lparr>bufLength = n, bufSampleRate = rate,
                           channelData = replicate c (replicate n (Num 0))\<rparr>)"

text \<open>
  The inner loop of \<^verbatim>\<open>decodePcmData\<close>,
  \<^verbatim>\<open>for (let i = 0; i < frameCount; i++) channelData[i] = dataInt16[i * numChannels + channel] / 32768.0\<close>.
  \<^verbatim>\<open>frameCount\<close> is a quotient of numbers and need not be whole. A store beyond the end of
  a typed array is ignored, which is what \<open>xs[i := v]\<close> does.
\<close>

function fillChannel ::
  "int16 list \<Rightarrow> nat \<Rightarrow> real \<Rightarrow> nat \<Rightarrow> nat \<Rightarrow> jsnum list \<Rightarrow> jsnum list" where
  "fillChannel dataInt16 numChannels frameCount channel i chan =
     (if real i < frameCount
      then fillChannel dataInt16 numChannels frameCount channel (i + 1)
             (chan[i := div32768 (int16At dataInt16 (i * numChannels + channel))])
      else chan)"
  by pat_completeness auto
termination
  by (relation "measure (\<lambda>(d, n, f, c, i, ch). nat \<lceil>f\<rceil> - i)") (auto, linarith)

declare fillChannel.simps [simp del]

text \<open>The outer loop, \<^verbatim>\<open>for (let channel = 0; channel < numChannels; channel++)\<close>.\<close>

function fillChannels ::
  "int16 list \<Rightarrow> nat \<Rightarrow> real \<Rightarrow> nat \<Rightarrow> jsnum list list \<Rightarrow> jsnum list list" where
  "fillChannels dataInt16 numChannels frameCount channel chans =
     (if channel < numChannels
      then fillChannels dataInt16 numChannels frameCount (channel + 1)
             (chans[channel := fillChannel dataInt16 numChannels frameCount channel 0 (chans ! channel)])
      else chans)"
  by pat_completeness auto
termination
  by (relation "measure (\<lambda>(d, n, f, c, chs). n - c)") auto

declare fillChannels.simps [simp del]

text \<open>
  \<^verbatim>\<open>decodePcmData(data, ctx, sampleRate, numChannels)\<close>. With \<open>numChannels = 0\<close> the
  quotient is \<^verbatim>\<open>Infinity\<close> or \<^verbatim>\<open>NaN\<close> in the program and \<open>0\<close> here; \<open>createBuffer\<close>
  refuses the channel count either way. \<^verbatim>\<open>buffer.getChannelData(channel)\<close> raises
  \<^verbatim>\<open>IndexSizeError\<close> for a channel that the buffer does not have. The buffer has fewer
  channels than \<open>numChannels\<close> only when \<open>createBuffer\<close> has reduced a channel count of
  \<open>2 ^ 32\<close> or more; the outer loop then reaches such a channel and the call fails,
  whatever the loop has written before.
\<close>

definition decodePcmData ::
  "byte list \<Rightarrow> audio_context \<Rightarrow> nat \<Rightarrow> nat \<Rightarrow> error + audio_buffer" where
  "decodePcmData data ctx sampleRate numChannels =
     (case newInt16Array data of
        Inl e \<Rightarrow> Inl e
      | Inr dataInt16 \<Rightarrow>
          (let frameCount = jsDiv (real (length dataInt16)) (real numChannels) in
           case createBuffer ctx numChannels frameCount sampleRate of
             Inl e \<Rightarrow> Inl e
           | Inr buffer \<Rightarrow>
               if length (channelData buffer) < numChannels then Inl IndexSizeError
               else Inr (buffer\<lparr>channelData :=
                           fillChannels dataInt16 numChannels frameCount 0 (channelData buffer)\<rparr>)))"

section \<open>WAV encoder\<close>

text \<open>
  The \<^verbatim>\<open>DataView\<close> over the 44-byte header. Every offset that \<^verbatim>\<open>pcmToWav\<close> writes at
  is a literal within the 44 bytes, so the \<^verbatim>\<open>RangeError\<close> of a write outside the
  view cannot arise. A setter converts its numeric argument to an unsigned integer of
  its width: the fraction is dropped and the value is taken modulo \<open>2 ^ 8\<close>,
  \<open>2 ^ 16\<close> or \<open>2 ^ 32\<close>. The multi-byte setters are called with
  \<^verbatim>\<open>littleEndian = true\<close>: least significant byte first.
\<close>

definition setUint8 :: "byte list \<Rightarrow> nat \<Rightarrow> real \<Rightarrow> byte list" where
  "setUint8 view byteOffset v = view[byteOffset := of_int \<lfloor>v\<rfloor>]"

definition setUint16 :: "byte list \<Rightarrow> nat \<Rightarrow> real \<Rightarrow> byte list" where
  "setUint16 view byteOffset v =
     (let w = (of_int \<lfloor>v\<rfloor> :: 16 word) in
      view[byteOffset := ucast w, byteOffset + 1 := ucast (drop_bit 8 w)])"

definition setUint32 :: "byte list \<Rightarrow> nat \<Rightarrow> real \<Rightarrow> byte list" where
  "setUint32 view byteOffset v =
     (let w = (of_int \<lfloor>v\<rfloor> :: 32 word) in
      view[byteOffset := ucast w, byteOffset + 1 := ucast (drop_bit 8 w),
           byteOffset + 2 := ucast (drop_bit 16 w), byteOffset + 3 := ucast (drop_bit 24 w)])"

text \<open>
  \<^verbatim>\<open>writeString(view, offset, string)\<close>, the loop
  \<^verbatim>\<open>for (let i = 0; i < string.length; i++) view.setUint8(offset + i, string.charCodeAt(i))\<close>,
  started at \<open>i\<close>.
\<close>

function writeStringFrom :: "nat \<Rightarrow> byte list \<Rightarrow> nat \<Rightarrow> string \<Rightarrow> byte list" where
  "writeStringFrom i view offset str =
     (if i < length str
      then writeStringFrom (i + 1) (setUint8 view (offset + i) (real (of_char (str ! i)))) offset str
      else view)"
  by pat_completeness auto
termination
  by (relation "measure (\<lambda>(i, v, off, str). length str - i)") auto

declare writeStringFrom.simps [simp del]

definition writeString :: "byte list \<Rightarrow> nat \<Rightarrow> string \<Rightarrow> byte list" where
  "writeString view offset str = writeStringFrom 0 view offset str"

text \<open>
  What the \<^verbatim>\<open>FileReader\<close> delivers for \<^verbatim>\<open>readAsArrayBuffer(pcmBlob)\<close>: the load event
  with \<^verbatim>\<open>e.target.result\<close> (the bytes of the blob, or \<^verbatim>\<open>null\<close>), or the error event.
\<close>

datatype reader_event = OnLoad "byte list option" | OnError

text \<open>
  \<^verbatim>\<open>pcmToWav(pcmBlob, sampleRate, numChannels, bitsPerSample)\<close>, given the reader's event.
  \<^verbatim>\<open>new ArrayBuffer(44)\<close> is 44 zero bytes; \<^verbatim>\<open>new Blob([header, pcmData])\<close> is the
  concatenation of its parts. The numeric parameters are natural numbers here (whole
  numbers that are doubles, in a call of the program); the sums, products and quotients
  computed from them are doubles, so \<^verbatim>\<open>bitsPerSample / 8\<close> is no integer division, and a
  result of \<open>2 ^ 53\<close> or more is rounded.
\<close>

definition pcmToWav :: "reader_event \<Rightarrow> nat \<Rightarrow> nat \<Rightarrow> nat \<Rightarrow> error + byte list" where
  "pcmToWav e sampleRate numChannels bitsPerSample =
     (case e of
        OnError \<Rightarrow> Inl ReaderError
      | OnLoad None \<Rightarrow> Inl FailedToReadPcmData
      | OnLoad (Some pcmData) \<Rightarrow>
          (let view = replicate 44 0;
               dataSize = length pcmData;
               fileSize = jsAdd 36 (real dataSize);
               view = writeString view 0 ''RIFF'';
               view = setUint32 view 4 fileSize;
               view = writeString view 8 ''WAVE'';
               view = writeString view 12 ''fmt '';
               view = setUint32 view 16 16;
               view = setUint16 view 20 1;
               view = setUint16 view 22 (real numChannels);
               view = setUint32 view 24 (real sampleRate);
               view = setUint32 view 28
                        (jsMul (jsMul (real sampleRate) (real numChannels))
                               (jsDiv (real bitsPerSample) 8));
               view = setUint16 view 32 (jsMul (real numChannels) (jsDiv (real bitsPerSample) 8));
               view = setUint16 view 34 (real bitsPerSample);
               view = writeString view 36 ''data'';
               view = setUint32 view 40 (real dataSize)
           in Inr (view @ pcmData)))"

section \<open>Playback transport\<close>

text \<open>
  One instance of the hook \<^verbatim>\<open>useAudioPlayer\<close>, together with the part of the browser it
  talks to. The React state is \<open>isPlaying\<close>, \<open>duration\<close>, \<open>currentTime\<close>; the four refs
  follow. A state update made by a callback is in force when the callback has ended, and
  the callbacks \<^verbatim>\<open>play\<close> and \<^verbatim>\<open>pause\<close> that the user reaches are those of the latest
  render. \<open>audioCtx\<close> holds the limits of the program's one context \<^verbatim>\<open>AudioCTX\<close> and
  \<open>ctxTime\<close> is \<^verbatim>\<open>AudioCTX.currentTime\<close>, in seconds. \<open>nodes\<close> are the
  \<^verbatim>\<open>AudioBufferSourceNode\<close>s created so far and \<open>intervals\<close> the timers created by
  \<^verbatim>\<open>setInterval\<close> so far; a ref holds the index of its node or timer, \<open>None\<close> for
  \<^verbatim>\<open>null\<close>. Nodes and timers are only ever added, at the end, and a ref is only ever set
  to the one just added, so the index in a ref is that of an existing node or timer.
  (A browser's timer handles are positive numbers, so a handle in
  \<^verbatim>\<open>timerRef.current\<close> is truthy.)

  A source node records the buffer it plays, the offset into the buffer and the clock
  value it was started at, and the value of \<^verbatim>\<open>duration\<close> that the closure installed as
  its \<^verbatim>\<open>onended\<close> handler has captured. A timer records the \<^verbatim>\<open>duration\<close> captured by
  its callback and whether it is still set.
\<close>

datatype node_status = Created | Started | Stopped | Ended

record source_node =
  srcBuffer :: audio_buffer
  srcOffset :: real
  srcStartedAt :: real
  srcStatus :: node_status
  srcDuration :: real

record interval =
  ivDuration :: real
  ivActive :: bool

record player =
  isPlaying :: bool
  duration :: real
  currentTime :: real
  audioBufferRef :: "audio_buffer option"
  sourceRef :: "nat option"
  timerRef :: "nat option"
  startTimeRef :: real
  audioCtx :: audio_context
  ctxTime :: real
  nodes :: "source_node list"
  intervals :: "interval list"

text \<open>The hook when it is mounted, on a context with the limits \<open>ctx\<close>.\<close>

definition initialPlayer :: "audio_context \<Rightarrow> player" where
  "initialPlayer ctx =
     \<lparr>isPlaying = False, duration = 0, currentTime = 0, audioBufferRef = None,
      sourceRef = None, timerRef = None, startTimeRef = 0, audioCtx = ctx, ctxTime = 0,
      nodes = [], intervals = []\<rparr>"

text \<open>
  \<^verbatim>\<open>node.stop()\<close>: a node that was never started raises \<^verbatim>\<open>InvalidStateError\<close>
  (\<open>None\<close>); a started node stops playing, its \<^verbatim>\<open>ended\<close> event still to be delivered;
  stopping again changes nothing.
\<close>

definition stopNode :: "nat \<Rightarrow> source_node list \<Rightarrow> source_node list option" where
  "stopNode n ns =
     (case srcStatus (ns ! n) of
        Created \<Rightarrow> None
      | Started \<Rightarrow> Some (ns[n := (ns ! n)\<lparr>srcStatus := Stopped\<rparr>])
      | Stopped \<Rightarrow> Some ns
      | Ended \<Rightarrow> Some ns)"

text \<open>\<^verbatim>\<open>if (timerRef.current) clearInterval(timerRef.current)\<close>\<close>

definition clearTimer :: "nat option \<Rightarrow> interval list \<Rightarrow> interval list" where
  "clearTimer r ivs =
     (case r of None \<Rightarrow> ivs | Some t \<Rightarrow> ivs[t := (ivs ! t)\<lparr>ivActive := False\<rparr>])"

text \<open>
  \<^verbatim>\<open>play\<close>. \<^verbatim>\<open>start(0, offset)\<close> raises \<^verbatim>\<open>RangeError\<close> on a negative offset; the callback
  then ends with the refs written and nothing else done.
\<close>

definition play :: "player \<Rightarrow> player" where
  "play s =
     (case audioBufferRef s of
        None \<Rightarrow> s
      | Some buffer \<Rightarrow>
          if isPlaying s then s
          else
            (let n = length (nodes s);
                 offset = currentTime s;
                 node = \<lparr>srcBuffer = buffer, srcOffset = offset, srcStartedAt = ctxTime s,
                         srcStatus = Created, srcDuration = duration s\<rparr>;
                 s1 = s\<lparr>sourceRef := Some n, nodes := nodes s @ [node],
                        startTimeRef := ctxTime s - offset\<rparr>
             in if offset < 0 then s1
                else s1\<lparr>nodes := nodes s @ [node\<lparr>srcStatus := Started\<rparr>],
                        isPlaying := True,
                        timerRef := Some (length (intervals s)),
                        intervals := intervals s @
                                       [\<lparr>ivDuration = duration s, ivActive = True\<rparr>]\<rparr>))"

text \<open>\<^verbatim>\<open>pause\<close>\<close>

definition pause :: "player \<Rightarrow> player" where
  "pause s =
     (case sourceRef s of
        None \<Rightarrow> s
      | Some n \<Rightarrow>
          if \<not> isPlaying s then s
          else
            (case stopNode n (nodes s) of
               None \<Rightarrow> s
             | Some ns \<Rightarrow>
                 s\<lparr>nodes := ns, sourceRef := None, isPlaying := False,
                    intervals := clearTimer (timerRef s) (intervals s)\<rparr>))"

text \<open>
  The \<^verbatim>\<open>onended\<close> handler of node \<open>n\<close>, run when the browser delivers the node's
  \<^verbatim>\<open>ended\<close> event (after the node has played to its end or has been stopped).
\<close>

definition onended :: "nat \<Rightarrow> player \<Rightarrow> player" where
  "onended n s =
     (let s1 = s\<lparr>nodes := (nodes s)[n := (nodes s ! n)\<lparr>srcStatus := Ended\<rparr>],
                 isPlaying := False,
                 intervals := clearTimer (timerRef s) (intervals s)\<rparr>
      in if ctxTime s - startTimeRef s \<ge> srcDuration (nodes s ! n)
         then s1\<lparr>currentTime := 0\<rparr> else s1)"

text \<open>The callback of timer \<open>t\<close>, the progress sampler.\<close>

definition timerTick :: "nat \<Rightarrow> player \<Rightarrow> player" where
  "timerTick t s =
     (let elapsed = ctxTime s - startTimeRef s
      in s\<lparr>currentTime := min elapsed (ivDuration (intervals s ! t))\<rparr>)"

text \<open>
  The cleanup of the effect on \<^verbatim>\<open>audioBlob\<close>, which React runs when the clip is replaced
  (and on unmount). When \<^verbatim>\<open>stop()\<close> raises, the timer is not reached.
\<close>

definition effectCleanup :: "player \<Rightarrow> player" where
  "effectCleanup s =
     (case sourceRef s of
        None \<Rightarrow> s\<lparr>intervals := clearTimer (timerRef s) (intervals s)\<rparr>
      | Some n \<Rightarrow>
          (case stopNode n (nodes s) of
             None \<Rightarrow> s
           | Some ns \<Rightarrow> s\<lparr>nodes := ns, intervals := clearTimer (timerRef s) (intervals s)\<rparr>))"

text \<open>
  \<^verbatim>\<open>processAudio\<close>, from the point where \<^verbatim>\<open>audioBlob.arrayBuffer()\<close> has delivered the
  bytes of the clip. A decoding error is logged and leaves the state as it is.
\<close>

definition processAudio :: "byte list \<Rightarrow> player \<Rightarrow> player" where
  "processAudio bytes s =
     (case decodePcmData bytes (audioCtx s) 24000 1 of
        Inl e \<Rightarrow> s
      | Inr audioBuffer \<Rightarrow>
          s\<lparr>audioBufferRef := Some audioBuffer, duration := bufDuration audioBuffer,
             currentTime := 0\<rparr>)"

text \<open>
  The callbacks run to completion one at a time, in an order chosen by the user and the
  browser. An event is one such run, or the audio clock moving on. The clock never goes
  back; a timer fires only while it is set; a node's \<^verbatim>\<open>ended\<close> event is delivered once,
  to a node that has been stopped or has played its buffer to the end. An event that
  cannot occur leaves the state as it is.
\<close>

datatype event =
    Advance real | Play | Pause | Tick nat | EndedEvent nat | Cleanup | Decoded "byte list"

definition playedOut :: "real \<Rightarrow> source_node \<Rightarrow> bool" where
  "playedOut now node \<longleftrightarrow>
     srcStatus node = Started \<and>
     srcOffset node + (now - srcStartedAt node) \<ge> bufDuration (srcBuffer node)"

definition apply_event :: "event \<Rightarrow> player \<Rightarrow> player" where
  "apply_event e s =
     (case e of
        Advance t \<Rightarrow> if ctxTime s \<le> t then s\<lparr>ctxTime := t\<rparr> else s
      | Play \<Rightarrow> play s
      | Pause \<Rightarrow> pause s
      | Tick t \<Rightarrow>
          if t < length (intervals s) \<and> ivActive (intervals s ! t) then timerTick t s else s
      | EndedEvent n \<Rightarrow>
          if n < length (nodes s) \<and>
             (srcStatus (nodes s ! n) = Stopped \<or> playedOut (ctxTime s) (nodes s ! n))
          then onended n s else s
      | Cleanup \<Rightarrow> effectCleanup s
      | Decoded bytes \<Rightarrow> processAudio bytes s)"

fun run :: "event list \<Rightarrow> player \<Rightarrow> player" where
  "run [] s = s"
| "run (e # es) s = run es (apply_event e s)"

section \<open>Generation orchestrator\<close>

text \<open>
  A JavaScript string is a list of characters, one per UTF-16 code unit. Every string
  literal of the program stays below code unit 256, so \<open>char\<close> holds each unit;
  \<open>CHR 0xE3\<close> is a with tilde, \<open>CHR 0xE9\<close> e acute, \<open>CHR 0xE7\<close> c cedilla, and so on.
\<close>

definition VISIBLE_THEMES :: "string list" where
  "VISIBLE_THEMES =
     [''Perd'' @ [CHR 0xE3] @ ''o'', ''F'' @ [CHR 0xE9], ''Amor'',
      ''Gratid'' @ [CHR 0xE3] @ ''o'', ''Prop'' @ [CHR 0xF3] @ ''sito'', ''Coragem'',
      ''Humildade'', ''Surpreenda-me'']"

definition ALL_THEMES :: "string list" where
  "ALL_THEMES =
     filter (\<lambda>t. t \<noteq> ''Surpreenda-me'') VISIBLE_THEMES @
     [''Esperan'' @ [CHR 0xE7] @ ''a'', ''Supera'' @ [CHR 0xE7, CHR 0xE3] @ ''o'',
      ''Depress'' @ [CHR 0xE3] @ ''o'', ''Finan'' @ [CHR 0xE7] @ ''as'', ''Casamento'',
      ''Fam'' @ [CHR 0xED] @ ''lia'', ''Paci'' @ [CHR 0xEA] @ ''ncia'',
      ''Perseveran'' @ [CHR 0xE7] @ ''a'', ''Confian'' @ [CHR 0xE7] @ ''a'', ''Sabedoria'',
      ''Transforma'' @ [CHR 0xE7, CHR 0xE3] @ ''o'']"

text \<open>The two user-facing messages passed to \<^verbatim>\<open>setError\<close>.\<close>

definition revelationErrorMessage :: string where
  "revelationErrorMessage =
     ''N'' @ [CHR 0xE3] @ ''o foi poss'' @ [CHR 0xED] @ ''vel gerar a revela'' @
     [CHR 0xE7, CHR 0xE3] @ ''o. Tente novamente.''"

definition prayerErrorMessage :: string where
  "prayerErrorMessage =
     ''N'' @ [CHR 0xE3] @ ''o foi poss'' @ [CHR 0xED] @ ''vel gerar a ora'' @
     [CHR 0xE7, CHR 0xE3] @ ''o. Tente novamente.''"

text \<open>The template literal \<^verbatim>\<open>promptText\<close> of \<^verbatim>\<open>handleGenerateRevelation\<close>.\<close>

definition revelationPrompt :: "string \<Rightarrow> string \<Rightarrow> string" where
  "revelationPrompt name finalTheme =
     ''Crie uma reflex'' @ [CHR 0xE3] @ ''o b'' @ [CHR 0xED] @
     ''blica inspiradora e pessoal para '' @ name @ '' sobre o tema '' @ [CHR 0x22] @
     finalTheme @ [CHR 0x22] @
     ''. A mensagem deve ser calorosa, encorajadora, direta e ter no m'' @ [CHR 0xE1] @
     ''ximo 1 minuto de dura'' @ [CHR 0xE7, CHR 0xE3] @ ''o quando lida. N'' @ [CHR 0xE3] @
     ''o inclua sauda'' @ [CHR 0xE7, CHR 0xF5] @ ''es como '' @ [CHR 0x22] @ ''Ol'' @
     [CHR 0xE1, CHR 0x22] @ '' ou '' @ [CHR 0x22] @ ''Querido(a)'' @ [CHR 0x22] @ ''. V'' @
     [CHR 0xE1] @ '' direto para a mensagem.''"

text \<open>The template literal \<^verbatim>\<open>promptText\<close> of \<^verbatim>\<open>handleGeneratePrayer\<close>.\<close>

definition prayerPrompt :: "string \<Rightarrow> string \<Rightarrow> string" where
  "prayerPrompt theme name =
     ''Com base na reflex'' @ [CHR 0xE3] @ ''o sobre '' @ [CHR 0x22] @ theme @ [CHR 0x22] @
     '' para '' @ name @ '', crie uma ora'' @ [CHR 0xE7, CHR 0xE3] @
     ''o curta e inspiradora. A ora'' @ [CHR 0xE7, CHR 0xE3] @
     ''o deve ter no m'' @ [CHR 0xE1] @ ''ximo 1 minuto de dura'' @ [CHR 0xE7, CHR 0xE3] @
     ''o quando lida.''"

text \<open>
  The values held in the React state of \<^verbatim>\<open>App\<close>: a revelation
  \<^verbatim>\<open>{ date, text, audio, name, theme }\<close> and a prayer \<^verbatim>\<open>{ text, audio }\<close>; the audio is
  the content of the \<^verbatim>\<open>Blob\<close>.
\<close>

record revelation =
  rev_date :: string
  rev_text :: string
  rev_audio :: "byte list"
  rev_name :: string
  rev_theme :: string

record prayer =
  prayer_text :: string
  prayer_audio :: "byte list"

text \<open>
  The state of \<^verbatim>\<open>App\<close> (\<open>errorMsg\<close> is the state variable \<^verbatim>\<open>error\<close>), and with it what
  the handlers change outside the component: the object store \<^verbatim>\<open>revelacoes\<close>, keyed by
  date, and the requests sent so far to the text model and to the speech model.
\<close>

record app =
  todayString :: string
  revelationState :: "revelation option"
  prayerState :: "prayer option"
  isLoading :: bool
  isLoadingPrayer :: bool
  errorMsg :: string
  playRevelationOnLoad :: bool
  revelacoes :: "string \<rightharpoonup> revelation"
  sentPrompts :: "string list"
  sentSpeech :: "string list"

text \<open>
  The state of \<^verbatim>\<open>App\<close> once mounted on the day \<open>date\<close>, with nothing stored for that day
  and no request sent: the initial values of the \<^verbatim>\<open>useState\<close> calls, and \<^verbatim>\<open>todayString\<close>
  as the mount effect sets it.
\<close>

definition initialApp :: "string \<Rightarrow> app" where
  "initialApp date =
     \<lparr>todayString = date, revelationState = None, prayerState = None, isLoading = False,
      isLoadingPrayer = False, errorMsg = [], playRevelationOnLoad = False,
      revelacoes = Map.empty, sentPrompts = [], sentSpeech = []\<rparr>"

text \<open>
  What lies outside the program, as the handlers see it during one call: the text model
  answers a prompt or the call fails; the speech model answers with audio bytes, with no
  audio part, or the call fails; \<^verbatim>\<open>db.put\<close> succeeds or not; \<^verbatim>\<open>Math.random()\<close> returns
  \<open>randomValue\<close>, a double that the platform takes from \<open>[0, 1)\<close>, so one between \<open>0\<close>
  and \<open>1 - 1 / 2 ^ 53\<close>, the largest double below \<open>1\<close>.
\<close>

datatype speech_response = SpeechFails | NoInlineData | InlineData "byte list"

record services =
  textModel :: "string \<Rightarrow> string option"
  speechModel :: "string \<Rightarrow> speech_response"
  putSucceeds :: bool
  randomValue :: real

text \<open>
  \<^verbatim>\<open>getGeminiResponse\<close> has two overloads; \<open>getGeminiText\<close> is the call with
  \<^verbatim>\<open>isAudio\<close> false and \<open>getGeminiAudio\<close> the call with \<^verbatim>\<open>isAudio\<close> true. The base64
  decoding of the audio payload is part of the speech model's answer here.
\<close>

definition getGeminiText :: "services \<Rightarrow> string \<Rightarrow> error + string" where
  "getGeminiText sv prompt =
     (case textModel sv prompt of None \<Rightarrow> Inl ServiceError | Some t \<Rightarrow> Inr t)"

definition getGeminiAudio :: "services \<Rightarrow> string \<Rightarrow> error + byte list" where
  "getGeminiAudio sv prompt =
     (case speechModel sv prompt of
        SpeechFails \<Rightarrow> Inl ServiceError
      | NoInlineData \<Rightarrow> Inl NoAudioDataReceived
      | InlineData bytes \<Rightarrow> Inr bytes)"

text \<open>\<^verbatim>\<open>saveRevelationToDB\<close>: \<^verbatim>\<open>db.put\<close> on a store whose key path is \<^verbatim>\<open>date\<close>.\<close>

definition saveRevelationToDB :: "services \<Rightarrow> revelation \<Rightarrow> app \<Rightarrow> error + app" where
  "saveRevelationToDB sv r s =
     (if putSucceeds sv then Inr (s\<lparr>revelacoes := (revelacoes s)(rev_date r \<mapsto> r)\<rparr>)
      else Inl StoreError)"

text \<open>
  \<^verbatim>\<open>ALL_THEMES[Math.floor(Math.random() * ALL_THEMES.length)]\<close>, inside a template literal:
  the product is a double, and an index outside the array gives \<^verbatim>\<open>undefined\<close>, printed
  as such.
\<close>

definition randomTheme :: "real \<Rightarrow> string" where
  "randomTheme r =
     (let k = \<lfloor>jsMul r (real (length ALL_THEMES))\<rfloor>
      in if 0 \<le> k \<and> nat k < length ALL_THEMES then ALL_THEMES ! nat k else ''undefined'')"

text \<open>
  \<^verbatim>\<open>handleGenerateRevelation\<close> up to its first \<^verbatim>\<open>await\<close>: the three state updates, the
  theme and the prompt. The result is the state in which the request goes out, the
  theme, and the prompt.
\<close>

definition beginGenerateRevelation ::
  "services \<Rightarrow> string \<Rightarrow> string \<Rightarrow> app \<Rightarrow> app \<times> string \<times> string" where
  "beginGenerateRevelation sv name theme s =
     (let s1 = s\<lparr>isLoading := True, errorMsg := [], prayerState := None\<rparr>;
          finalTheme = (if theme = ''Surpreenda-me'' then randomTheme (randomValue sv)
                        else theme);
          promptText = revelationPrompt name finalTheme
      in (s1, finalTheme, promptText))"

text \<open>
  \<^verbatim>\<open>handleGenerateRevelation({ name, theme })\<close>, from call to settled promise. No other
  handler runs in between: the form that calls this one is rendered only while there is
  no revelation, and the prayer is requested from the card of a revelation.
\<close>

definition handleGenerateRevelation :: "services \<Rightarrow> string \<Rightarrow> string \<Rightarrow> app \<Rightarrow> app" where
  "handleGenerateRevelation sv name theme s =
     (case beginGenerateRevelation sv name theme s of
        (s1, finalTheme, promptText) \<Rightarrow>
          (let s2 = s1\<lparr>sentPrompts := sentPrompts s1 @ [promptText]\<rparr> in
           case getGeminiText sv promptText of
             Inl e \<Rightarrow> s2\<lparr>errorMsg := revelationErrorMessage, isLoading := False\<rparr>
           | Inr text \<Rightarrow>
               (let s3 = s2\<lparr>sentSpeech := sentSpeech s2 @ [text]\<rparr> in
                case getGeminiAudio sv text of
                  Inl e \<Rightarrow> s3\<lparr>errorMsg := revelationErrorMessage, isLoading := False\<rparr>
                | Inr audio \<Rightarrow>
                    (let newRevelation =
                           \<lparr>rev_date = todayString s3, rev_text = text, rev_audio = audio,
                            rev_name = name, rev_theme = finalTheme\<rparr>;
                         s4 = s3\<lparr>revelationState := Some newRevelation\<rparr>
                     in case saveRevelationToDB sv newRevelation s4 of
                          Inl e \<Rightarrow> s4\<lparr>errorMsg := revelationErrorMessage, isLoading := False\<rparr>
                        | Inr s5 \<Rightarrow> s5\<lparr>playRevelationOnLoad := True, isLoading := False\<rparr>))))"

text \<open>\<^verbatim>\<open>handleGeneratePrayer()\<close>\<close>

definition handleGeneratePrayer :: "services \<Rightarrow> app \<Rightarrow> app" where
  "handleGeneratePrayer sv s =
     (case revelationState s of
        None \<Rightarrow> s
      | Some r \<Rightarrow>
          (let s1 = s\<lparr>isLoadingPrayer := True, errorMsg := []\<rparr>;
               promptText = prayerPrompt (rev_theme r) (rev_name r);
               s2 = s1\<lparr>sentPrompts := sentPrompts s1 @ [promptText]\<rparr>
           in case getGeminiText sv promptText of
                Inl e \<Rightarrow> s2\<lparr>errorMsg := prayerErrorMessage, isLoadingPrayer := False\<rparr>
              | Inr text \<Rightarrow>
                  (let s3 = s2\<lparr>sentSpeech := sentSpeech s2 @ [text]\<rparr> in
                   case getGeminiAudio sv text of
                     Inl e \<Rightarrow> s3\<lparr>errorMsg := prayerErrorMessage, isLoadingPrayer := False\<rparr>
                   | Inr audio \<Rightarrow>
                       s3\<lparr>prayerState := Some \<lparr>prayer_text = text, prayer_audio = audio\<rparr>,
                          isLoadingPrayer := False\<rparr>)))"

section \<open>Notions of the specification\<close>

text \<open>
  The fields of the WAV header as the specification names them: an unsigned integer of
  16 or 32 bits, least significant byte first, a four-character tag as its character
  codes, and the number that a little-endian byte sequence denotes.
\<close>

definition u16le :: "nat \<Rightarrow> byte list" where
  "u16le n = [of_nat n, of_nat (n div 256)]"

definition u32le :: "nat \<Rightarrow> byte list" where
  "u32le n = [of_nat n, of_nat (n div 256), of_nat (n div 65536), of_nat (n div 16777216)]"

definition tag :: "string \<Rightarrow> byte list" where
  "tag str = map (\<lambda>c. of_nat (of_char c)) str"

definition leNat :: "byte list \<Rightarrow> nat" where
  "leNat bs = foldr (\<lambda>b acc. unat b + 256 * acc) bs 0"

text \<open>
  The data chunk of a file in that layout, as a reader of the file finds it: the tag
  \<^verbatim>\<open>"data"\<close> at bytes 36 to 39, the size of the payload at bytes 40 to 43, and the
  payload, the bytes that follow, as many as the size says.
\<close>

definition dataChunk :: "byte list \<Rightarrow> byte list option" where
  "dataChunk wav =
     (let n = leNat (take 4 (drop 40 wav)) in
      if take 4 (drop 36 wav) = tag ''data'' \<and> 44 + n \<le> length wav
      then Some (take n (drop 44 wav)) else None)"

text \<open>
  The invariant of the playback state: the elapsed time lies between \<open>0\<close> and the total
  duration, and while \<open>isPlaying\<close> holds the transport holds a source that is started and
  has neither been stopped nor ended.
\<close>

definition activeSource :: "player \<Rightarrow> bool" where
  "activeSource s =
     (case sourceRef s of
        None \<Rightarrow> False
      | Some n \<Rightarrow> n < length (nodes s) \<and> srcStatus (nodes s ! n) = Started)"

definition playbackInv :: "player \<Rightarrow> bool" where
  "playbackInv s \<longleftrightarrow>
     0 \<le> currentTime s \<and> currentTime s \<le> duration s \<and> (isPlaying s \<longrightarrow> activeSource s)"

text \<open>
  What the proof of the invariant needs to know about the timers: a timer that is still
  set is the one in \<open>timerRef\<close>, it was set by the \<open>play\<close> that made the state playing, it
  has captured the current \<open>duration\<close>, and the recorded start instant is not in the
  future.
\<close>

definition samplerInv :: "player \<Rightarrow> bool" where
  "samplerInv s \<longleftrightarrow>
     (\<forall>t < length (intervals s). ivActive (intervals s ! t) \<longrightarrow>
        isPlaying s \<and> timerRef s = Some t \<and> ivDuration (intervals s ! t) = duration s \<and>
        startTimeRef s \<le> ctxTime s)"

text \<open>
  The two events of a buffer load: the cleanup that React runs when the clip is replaced,
  and the end of the decoding of the new clip. \<open>quietLoads es s\<close> says that along the
  events \<open>es\<close>, from \<open>s\<close>, both happen only while the transport is not playing.
\<close>

definition isLoadEvent :: "event \<Rightarrow> bool" where
  "isLoadEvent e = (case e of Cleanup \<Rightarrow> True | Decoded bytes \<Rightarrow> True | _ \<Rightarrow> False)"

fun quietLoads :: "event list \<Rightarrow> player \<Rightarrow> bool" where
  "quietLoads [] s = True"
| "quietLoads (e # es) s =
     ((isLoadEvent e \<longrightarrow> \<not> isPlaying s) \<and> quietLoads es (apply_event e s))"

section \<open>Rounding to a double\<close>

text \<open>The exponent found by \<open>binaryExponent\<close> is the binary exponent.\<close>

lemma binaryExponent_bounds:
  assumes "0 < x"
  shows "2 powi binaryExponent x \<le> x" "x < 2 powi (binaryExponent x + 1)"
proof -
  have "2 powi binaryExponent x \<le> x \<and> x < 2 powi (binaryExponent x + 1)"
  proof (cases "1 \<le> x")
    case True
    then have n: "0 < \<lfloor>x\<rfloor>" by simp
    let ?b = "bitlen \<lfloor>x\<rfloor>"
    have b1: "1 \<le> ?b" using n by (simp add: bitlen_alt_def)
    have lo: "2 ^ nat (?b - 1) \<le> \<lfloor>x\<rfloor>" and hi: "\<lfloor>x\<rfloor> < 2 ^ nat ?b"
      using bitlen_bounds[OF n] by simp_all
    have "real_of_int (2 ^ nat (?b - 1)) \<le> real_of_int \<lfloor>x\<rfloor>" using lo by (simp only: of_int_le_iff)
    also have "\<dots> \<le> x" by simp
    finally have 1: "2 ^ nat (?b - 1) \<le> x" by simp
    from hi have "x < real_of_int (2 ^ nat ?b)" by (simp only: floor_less_iff)
    then have 2: "x < 2 ^ nat ?b" by simp
    have e: "binaryExponent x = ?b - 1" using True by (simp add: binaryExponent_def)
    show ?thesis using 1 2 b1 by (simp add: e power_int_def)
  next
    case False
    then have x1: "x < 1" by simp
    let ?c = "\<lceil>1 / x\<rceil>"
    have "1 < 1 / x" using assms x1 by simp
    then have c2: "2 \<le> ?c" by (simp add: le_ceiling_iff)
    let ?b = "bitlen (?c - 1)"
    have m: "0 < ?c - 1" using c2 by simp
    have b1: "1 \<le> ?b" using m by (simp add: bitlen_alt_def)
    have lo: "2 ^ nat (?b - 1) \<le> ?c - 1" and hi: "?c - 1 < 2 ^ nat ?b"
      using bitlen_bounds[OF m] by simp_all
    have "real_of_int (2 ^ nat (?b - 1)) \<le> real_of_int (?c - 1)" using lo by (simp only: of_int_le_iff)
    moreover have "real_of_int (?c - 1) < 1 / x" by linarith
    ultimately have 1: "2 ^ nat (?b - 1) < 1 / x" by simp
    have "?c \<le> 2 ^ nat ?b" using hi by simp
    then have "1 / x \<le> real_of_int (2 ^ nat ?b)" by (simp only: ceiling_le_iff)
    then have 2: "1 / x \<le> 2 ^ nat ?b" by simp
    have e: "binaryExponent x = - ?b" using False by (simp add: binaryExponent_def)
    have p0: "(0::real) < 2 ^ nat ?b" "(0::real) < 2 ^ nat (?b - 1)" by simp_all
    from 2 assms p0 have A: "1 / 2 ^ nat ?b \<le> x" by (simp add: field_simps)
    from 1 assms p0 have B: "x < 1 / 2 ^ nat (?b - 1)" by (simp add: field_simps)
    have "2 powi (- ?b) = (1::real) / 2 ^ nat ?b" using b1 by (simp add: power_int_def field_simps)
    moreover have "2 powi (- ?b + 1) = (1::real) / 2 ^ nat (?b - 1)"
    proof (cases "?b = 1")
      case True then show ?thesis by simp
    next
      case False
      with b1 have "- ?b + 1 < 0" by simp
      moreover have "nat (- (- ?b + 1)) = nat (?b - 1)" by simp
      ultimately show ?thesis by (simp add: power_int_def field_simps)
    qed
    ultimately show ?thesis using A B by (simp add: e)
  qed
  then show "2 powi binaryExponent x \<le> x" "x < 2 powi (binaryExponent x + 1)" by simp_all
qed

lemma roundTiesToEven_error: "\<bar>real_of_int (roundTiesToEven y) - y\<bar> \<le> 1 / 2"
  unfolding roundTiesToEven_def Let_def by (auto simp: abs_if) linarith+

lemma roundTiesToEven_ge:
  assumes "real_of_int m \<le> y"
  shows "m \<le> roundTiesToEven y"
proof -
  have "m \<le> \<lfloor>y\<rfloor>" using assms by (simp add: le_floor_iff)
  then show ?thesis unfolding roundTiesToEven_def Let_def by auto
qed

lemma roundTiesToEven_le:
  assumes "y \<le> real_of_int m"
  shows "roundTiesToEven y \<le> m"
proof (cases "y = real_of_int m")
  case True
  then show ?thesis unfolding roundTiesToEven_def Let_def by simp
next
  case False
  with assms have "y < real_of_int m" by simp
  then have "\<lfloor>y\<rfloor> < m" by (simp add: floor_less_iff)
  then show ?thesis unfolding roundTiesToEven_def Let_def by auto
qed


lemma roundToPrecision_pos:
  "0 < x \<Longrightarrow>
   roundToPrecision p x = 2 powi (binaryExponent x - int p + 1) *
                  of_int (roundTiesToEven (x / 2 powi (binaryExponent x - int p + 1)))"
  by (simp add: roundToPrecision_def Let_def)

lemma roundToPrecision_nonneg: "0 \<le> x \<Longrightarrow> 0 \<le> roundToPrecision p x"
proof (cases "x = 0")
  case True
  then show ?thesis by (simp add: roundToPrecision_def)
next
  case False
  assume "0 \<le> x"
  with False have x: "0 < x" by simp
  let ?u = "(2::real) powi (binaryExponent x - int p + 1)"
  have u: "0 < ?u" by simp
  have "real_of_int 0 \<le> x / ?u" using x u by simp
  then have "0 \<le> roundTiesToEven (x / ?u)" by (rule roundTiesToEven_ge)
  then show ?thesis using u by (simp add: roundToPrecision_pos[OF x])
qed

text \<open>The relative error of rounding to \<open>p\<close> bits is at most \<open>2\<close> to the \<open>-p\<close>.\<close>

lemma roundToPrecision_error:
  assumes "0 < x"
  shows "\<bar>roundToPrecision p x - x\<bar> \<le> x / 2 ^ p"
proof -
  let ?e = "binaryExponent x"
  let ?u = "(2::real) powi (?e - int p + 1)"
  have u: "0 < ?u" by simp
  have "roundToPrecision p x - x = ?u * (of_int (roundTiesToEven (x / ?u)) - x / ?u)"
    using u by (simp add: roundToPrecision_pos[OF assms] algebra_simps)
  then have "\<bar>roundToPrecision p x - x\<bar> = ?u * \<bar>of_int (roundTiesToEven (x / ?u)) - x / ?u\<bar>"
    using u by (simp add: abs_mult)
  also have "\<dots> \<le> ?u * (1 / 2)"
    using u roundTiesToEven_error[of "x / ?u"] by (intro mult_left_mono) simp_all
  also have "?u * (1 / 2) = 2 powi ?e / 2 ^ p"
  proof -
    have "(2::real) powi (?e - int p + 1) = 2 powi (?e - int p) * 2"
      by (rule power_int_add_1) simp
    also have "(2::real) powi (?e - int p) = 2 powi ?e / 2 powi (int p)"
      by (rule power_int_diff) simp
    finally show ?thesis by simp
  qed
  also have "\<dots> \<le> x / 2 ^ p"
    using binaryExponent_bounds(1)[OF assms] by (simp add: divide_right_mono)
  finally show ?thesis .
qed

text \<open>
  Rounding does not cross a number \<open>k / 2 ^ j\<close> that lies on the grid of the numbers of
  \<open>p\<close> bits around \<open>x\<close>, which it does when \<open>x\<close> is below \<open>2 ^ p / 2 ^ j\<close>.
\<close>

lemma grid_unit:
  assumes "0 < x" "x < 2 ^ p / 2 ^ j"
  shows "\<exists>N::nat. 1 / 2 ^ j = 2 powi (binaryExponent x - int p + 1) * real N"
proof -
  let ?e = "binaryExponent x"
  have "?e < int p - int j"
  proof (rule ccontr)
    assume "\<not> ?e < int p - int j"
    then have "int p - int j \<le> ?e" by simp
    then have "(2::real) powi (int p - int j) \<le> 2 powi ?e" by (intro power_int_increasing) simp_all
    also have "\<dots> \<le> x" by (rule binaryExponent_bounds(1)[OF assms(1)])
    finally show False using assms(2) by (simp add: power_int_diff)
  qed
  then have d: "0 \<le> int p - 1 - ?e - int j" by simp
  have "(2::real) powi (?e - int p + 1) * real (2 ^ nat (int p - 1 - ?e - int j)) =
        2 powi (?e - int p + 1) * 2 powi (int p - 1 - ?e - int j)"
    using d by (simp add: power_int_def)
  also have "\<dots> = 2 powi ((?e - int p + 1) + (int p - 1 - ?e - int j))"
    by (rule power_int_add[symmetric]) simp
  also have "\<dots> = 1 / 2 ^ j" by (simp add: power_int_minus_divide)
  finally show ?thesis by (intro exI[of _ "2 ^ nat (int p - 1 - ?e - int j)"]) simp
qed

lemma roundToPrecision_grid_ge:
  assumes "0 < x" "x < 2 ^ p / 2 ^ j" "real_of_int k / 2 ^ j \<le> x"
  shows "real_of_int k / 2 ^ j \<le> roundToPrecision p x"
proof -
  let ?u = "(2::real) powi (binaryExponent x - int p + 1)"
  have u: "0 < ?u" by simp
  obtain N :: nat where N: "1 / 2 ^ j = ?u * real N" using grid_unit[OF assms(1,2)] by blast
  have kg: "real_of_int k / 2 ^ j = ?u * real_of_int (k * int N)"
    using N by (simp add: field_simps)
  then have "?u * real_of_int (k * int N) \<le> x" using assms(3) by simp
  then have "real_of_int (k * int N) \<le> x / ?u" using u by (simp add: field_simps)
  then have "k * int N \<le> roundTiesToEven (x / ?u)" by (rule roundTiesToEven_ge)
  then have "real_of_int (k * int N) \<le> real_of_int (roundTiesToEven (x / ?u))"
    by (simp only: of_int_le_iff)
  then have "?u * real_of_int (k * int N) \<le> ?u * real_of_int (roundTiesToEven (x / ?u))"
    using u by (intro mult_left_mono) simp_all
  then show ?thesis unfolding kg roundToPrecision_pos[OF assms(1)] .
qed

lemma roundToPrecision_grid_le:
  assumes "0 < x" "x < 2 ^ p / 2 ^ j" "x \<le> real_of_int k / 2 ^ j"
  shows "roundToPrecision p x \<le> real_of_int k / 2 ^ j"
proof -
  let ?u = "(2::real) powi (binaryExponent x - int p + 1)"
  have u: "0 < ?u" by simp
  obtain N :: nat where N: "1 / 2 ^ j = ?u * real N" using grid_unit[OF assms(1,2)] by blast
  have kg: "real_of_int k / 2 ^ j = ?u * real_of_int (k * int N)"
    using N by (simp add: field_simps)
  then have "x \<le> ?u * real_of_int (k * int N)" using assms(3) by simp
  then have "x / ?u \<le> real_of_int (k * int N)" using u by (simp add: field_simps)
  then have "roundTiesToEven (x / ?u) \<le> k * int N" by (rule roundTiesToEven_le)
  then have "real_of_int (roundTiesToEven (x / ?u)) \<le> real_of_int (k * int N)"
    by (simp only: of_int_le_iff)
  then have "?u * real_of_int (roundTiesToEven (x / ?u)) \<le> ?u * real_of_int (k * int N)"
    using u by (intro mult_left_mono) simp_all
  then show ?thesis unfolding kg roundToPrecision_pos[OF assms(1)] .
qed

text \<open>
  A whole number below \<open>2 ^ p\<close>, and such a number divided by a power of two, is a number
  of \<open>p\<close> bits.
\<close>

lemma roundToPrecision_exact:
  assumes "n < 2 ^ p"
  shows "roundToPrecision p (real n / 2 ^ j) = real n / 2 ^ j"
proof (cases "n = 0")
  case True
  then show ?thesis by (simp add: roundToPrecision_def)
next
  case False
  let ?x = "real n / 2 ^ j"
  have x: "0 < ?x" using False by simp
  have "real n < 2 ^ p" using assms by (metis of_nat_less_iff of_nat_numeral of_nat_power)
  then have b: "?x < 2 ^ p / 2 ^ j" by (simp add: divide_strict_right_mono)
  have "real_of_int (int n) / 2 ^ j \<le> roundToPrecision p ?x"
    by (rule roundToPrecision_grid_ge[OF x b]) simp
  moreover have "roundToPrecision p ?x \<le> real_of_int (int n) / 2 ^ j"
    by (rule roundToPrecision_grid_le[OF x b]) simp
  ultimately show ?thesis by simp
qed

text \<open>The same for doubles, and for the floats of the Web Audio interface.\<close>

lemma toDouble_nonneg: "0 \<le> x \<Longrightarrow> 0 \<le> toDouble x"
  unfolding toDouble_def by (rule roundToPrecision_nonneg)

lemma toDouble_nat: "n < 2 ^ 53 \<Longrightarrow> toDouble (real n) = real n"
  using roundToPrecision_exact[of n 53 0] by (simp add: toDouble_def)

lemma toDouble_eighths: "n < 2 ^ 53 \<Longrightarrow> toDouble (real n / 8) = real n / 8"
  using roundToPrecision_exact[of n 53 3] by (simp add: toDouble_def)

lemma toFloat_nat: "n < 2 ^ 24 \<Longrightarrow> toFloat (real n) = real n"
  using roundToPrecision_exact[of n 24 0] by (simp add: toFloat_def)

text \<open>
  Rounding a number below \<open>2 ^ 53\<close> that is not negative to a double does not cross a
  whole number, and moves the number by at most its \<open>2 ^ 53\<close>rd part.
\<close>

lemma toDouble_whole_ge:
  assumes "0 \<le> x" "x < 2 ^ 53" "real k \<le> x"
  shows "real k \<le> toDouble x"
proof (cases "x = 0")
  case True
  then show ?thesis using assms(3) by (simp add: toDouble_def roundToPrecision_def)
next
  case False
  with assms(1) have x: "0 < x" by simp
  have "real_of_int (int k) / 2 ^ 0 \<le> roundToPrecision 53 x"
    by (rule roundToPrecision_grid_ge[OF x]) (use assms in simp_all)
  then show ?thesis by (simp add: toDouble_def)
qed

lemma toDouble_whole_le:
  assumes "0 \<le> x" "x < 2 ^ 53" "x \<le> real k"
  shows "toDouble x \<le> real k"
proof (cases "x = 0")
  case True
  then show ?thesis by (simp add: toDouble_def roundToPrecision_def)
next
  case False
  with assms(1) have x: "0 < x" by simp
  have "roundToPrecision 53 x \<le> real_of_int (int k) / 2 ^ 0"
    by (rule roundToPrecision_grid_le[OF x]) (use assms in simp_all)
  then show ?thesis by (simp add: toDouble_def)
qed

lemma toDouble_near:
  assumes "0 \<le> x"
  shows "\<bar>toDouble x - x\<bar> \<le> x / 2 ^ 53"
proof (cases "x = 0")
  case True
  then show ?thesis by (simp add: toDouble_def roundToPrecision_def)
next
  case False
  with assms have "0 < x" by simp
  then show ?thesis unfolding toDouble_def by (rule roundToPrecision_error)
qed

text \<open>
  The quotient of two natural numbers, the dividend below \<open>2 ^ 53\<close>, is rounded to a
  double with the same whole part.
\<close>

lemma frameCount_bounds:
  assumes "N < 2 ^ 53"
  shows "real (N div C) \<le> jsDiv (real N) (real C)"
    and "jsDiv (real N) (real C) < real (N div C) + 1"
proof -
  let ?x = "real N / real C"
  have "real (N div C) \<le> toDouble ?x \<and> toDouble ?x < real (N div C) + 1"
  proof (cases "C = 0 \<or> N = 0")
    case True
    then show ?thesis by (auto simp: toDouble_def roundToPrecision_def)
  next
    case False
    then have C: "0 < C" and N: "0 < N" by simp_all
    have x: "0 < ?x" using C N by simp
    have N53: "real N < 2 ^ 53" using assms by (metis of_nat_less_iff of_nat_numeral of_nat_power)
    have "real N * 1 \<le> real N * real C" using C by (intro mult_left_mono) simp_all
    then have "?x \<le> real N" using C by (simp add: field_simps)
    then have b: "?x < 2 ^ 53 / 2 ^ 0" using N53 by simp
    have q: "real (N div C) \<le> ?x"
      using C by (metis floor_divide_of_nat_eq of_int_floor_le of_int_of_nat_eq)
    have lo: "real (N div C) \<le> toDouble ?x"
      by (rule toDouble_whole_ge[OF less_imp_le[OF x] _ q]) (use b in simp)
    have "N < (N div C + 1) * C" using C by (simp add: dividend_less_div_times)
    then have "N + 1 \<le> (N div C + 1) * C" by simp
    then have "real (N + 1) \<le> real ((N div C + 1) * C)" by (simp only: of_nat_le_iff)
    then have "real N + 1 \<le> (real (N div C) + 1) * real C" by (simp add: algebra_simps)
    then have up: "?x + 1 / real C \<le> real (N div C) + 1" using C by (simp add: field_simps)
    have "?x / 2 ^ 53 < 1 / real C" using C N53 by (simp add: field_simps)
    moreover have "toDouble ?x \<le> ?x + ?x / 2 ^ 53"
      using toDouble_near[OF less_imp_le[OF x]] by linarith
    ultimately have "toDouble ?x < real (N div C) + 1" using up by linarith
    with lo show ?thesis by simp
  qed
  then show "real (N div C) \<le> jsDiv (real N) (real C)"
    and "jsDiv (real N) (real C) < real (N div C) + 1"
    by (simp_all add: jsDiv_def)
qed

lemma floor_frameCount:
  assumes "N < 2 ^ 53"
  shows "nat \<lfloor>jsDiv (real N) (real C)\<rfloor> = N div C"
proof -
  have "\<lfloor>jsDiv (real N) (real C)\<rfloor> = int (N div C)"
    using frameCount_bounds[OF assms, of C] by (simp add: floor_eq_iff)
  then show ?thesis by simp
qed

section \<open>The decoder's loops\<close>

lemma length_int16s: "length (int16s bs) = length bs div 2"
  by (induction bs rule: int16s.induct) auto

lemma length_fillChannel: "length (fillChannel d n f c i chan) = length chan"
proof (induction d n f c i chan rule: fillChannel.induct)
  case (1 d n f c i chan)
  then show ?case by (subst fillChannel.simps) auto
qed

text \<open>
  The inner loop started at \<open>i\<close> overwrites the slots from \<open>i\<close> up to the frame count and
  leaves the others.
\<close>

lemma nth_fillChannel:
  "j < length chan \<Longrightarrow>
   fillChannel d n f c i chan ! j =
     (if i \<le> j \<and> real j < f then div32768 (int16At d (j * n + c)) else chan ! j)"
proof (induction d n f c i chan rule: fillChannel.induct)
  case (1 d n f c i chan)
  show ?case
  proof (cases "real i < f")
    case True
    have "fillChannel d n f c i chan ! j =
            fillChannel d n f c (i + 1) (chan[i := div32768 (int16At d (i * n + c))]) ! j"
      using True by (subst fillChannel.simps) simp
    also have "\<dots> = (if i + 1 \<le> j \<and> real j < f then div32768 (int16At d (j * n + c))
                      else chan[i := div32768 (int16At d (i * n + c))] ! j)"
      using "1.IH"[OF True] "1.prems" by simp
    also have "\<dots> = (if i \<le> j \<and> real j < f then div32768 (int16At d (j * n + c))
                      else chan ! j)"
    proof (cases "j = i")
      case True
      with \<open>real i < f\<close> "1.prems" show ?thesis by simp
    next
      case False
      then have "(i + 1 \<le> j) = (i \<le> j)" by auto
      with False show ?thesis by simp
    qed
    finally show ?thesis .
  next
    case False
    then show ?thesis by (subst fillChannel.simps) auto
  qed
qed

lemma length_fillChannels: "length (fillChannels d n f c chans) = length chans"
proof (induction d n f c chans rule: fillChannels.induct)
  case (1 d n f c chans)
  then show ?case by (subst fillChannels.simps) auto
qed

lemma nth_fillChannels:
  "k < length chans \<Longrightarrow>
   fillChannels d n f c chans ! k =
     (if c \<le> k \<and> k < n then fillChannel d n f k 0 (chans ! k) else chans ! k)"
proof (induction d n f c chans rule: fillChannels.induct)
  case (1 d n f c chans)
  show ?case
  proof (cases "c < n")
    case True
    let ?chans' = "chans[c := fillChannel d n f c 0 (chans ! c)]"
    have "fillChannels d n f c chans ! k = fillChannels d n f (c + 1) ?chans' ! k"
      using True by (subst fillChannels.simps) simp
    also have "\<dots> = (if c + 1 \<le> k \<and> k < n then fillChannel d n f k 0 (?chans' ! k)
                      else ?chans' ! k)"
      using "1.IH"[OF True] "1.prems" by simp
    also have "\<dots> = (if c \<le> k \<and> k < n then fillChannel d n f k 0 (chans ! k)
                      else chans ! k)"
    proof (cases "k = c")
      case True
      with \<open>c < n\<close> "1.prems" show ?thesis by simp
    next
      case False
      then have "(c + 1 \<le> k) = (c \<le> k)" by auto
      with False show ?thesis by simp
    qed
    finally show ?thesis .
  next
    case False
    then show ?thesis by (subst fillChannels.simps) auto
  qed
qed

text \<open>
  Frame \<open>i\<close> of channel \<open>c\<close> of a buffer of \<open>n\<close> frames, \<open>n\<close> being at most the whole part
  of the frame count: the loop reaches it, and the sample it reads lies inside the
  \<^verbatim>\<open>Int16Array\<close>.
\<close>

lemma decoded_sample:
  assumes "c < C" "i < n" "n \<le> N div C" "real n \<le> f" "N = length d"
  shows "fillChannels d C f 0 (replicate C (replicate n (Num 0))) ! c ! i
           = Num (real_of_int (sint (d ! (i * C + c))) / 32768)"
proof -
  have "real (i + 1) \<le> real n" using assms(2) by simp
  then have lt: "real i < f" using assms(4) by simp
  have le: "i + 1 \<le> N div C" using assms(2,3) by simp
  have "(i + 1) * C \<le> (N div C) * C" by (rule mult_le_mono1[OF le])
  also have "\<dots> \<le> N" by simp
  finally have idx: "i * C + c < N" using assms(1) by (simp add: algebra_simps)
  show ?thesis
    using assms(1,2,5) lt idx
    by (simp add: nth_fillChannels nth_fillChannel int16At_def div32768_def)
qed

lemma fillChannels_decoded:
  assumes "n \<le> N div C" "real n \<le> f" "N = length d"
  shows "fillChannels d C f 0 (replicate C (replicate n (Num 0))) =
         map (\<lambda>c. map (\<lambda>i. Num (real_of_int (sint (d ! (i * C + c))) / 32768)) [0..<n])
             [0..<C]"
    (is "?L = ?R")
proof (rule nth_equalityI)
  show "length ?L = length ?R" by (simp add: length_fillChannels)
next
  fix c
  assume "c < length ?L"
  then have c: "c < C" by (simp add: length_fillChannels)
  show "?L ! c = ?R ! c"
  proof (rule nth_equalityI)
    show "length (?L ! c) = length (?R ! c)"
      using c by (simp add: nth_fillChannels length_fillChannel)
  next
    fix i
    assume "i < length (?L ! c)"
    then have i: "i < n" using c by (simp add: nth_fillChannels length_fillChannel)
    show "?L ! c ! i = ?R ! c ! i"
      using decoded_sample[OF c i assms] c i by simp
  qed
qed

text \<open>
  The decoder in closed form, for an input of fewer than \<open>2 ^ 32\<close> samples and a sample
  rate below \<open>2 ^ 24\<close>: when it fails, with what, and the buffer it returns.
\<close>

lemma decodePcmData_cases:
  assumes "length data < 2 ^ 33" "sr < 2 ^ 24"
  shows "decodePcmData data ctx sr C =
     (if odd (length data) then Inl RangeError
      else if C = 0 \<or> maxChannels ctx < C \<or> length data div 2 < C \<or>
              sr = 0 \<or> sr < minSampleRate ctx \<or> maxSampleRate ctx < sr
           then Inl NotSupportedError
      else case unavailable ctx C (length data div 2 div C) of
             Some e \<Rightarrow> Inl e
           | None \<Rightarrow>
               Inr \<lparr>bufLength = length data div 2 div C, bufSampleRate = real sr,
                    channelData =
                      map (\<lambda>c. map (\<lambda>i. Num (real_of_int (sint (int16s data ! (i * C + c))) / 32768))
                                 [0..<length data div 2 div C]) [0..<C]\<rparr>)"
proof -
  let ?N = "length data div 2"
  let ?f = "jsDiv (real ?N) (real C)"
  have N32: "?N < 2 ^ 32" using assms(1) by simp
  then have N53: "?N < 2 ^ 53" by simp
  have fl: "nat \<lfloor>?f\<rfloor> = ?N div C" by (rule floor_frameCount[OF N53])
  have "?N div C < 2 ^ 32" by (rule le_less_trans[OF div_le_dividend N32])
  then have n: "?N div C mod 2 ^ 32 = ?N div C" by (rule mod_less)
  have rate: "toFloat (real sr) = real sr" by (rule toFloat_nat[OF assms(2)])
  have "real sr < real (2 ^ 24)" using assms(2) by (simp only: of_nat_less_iff)
  then have small: "\<not> 2 ^ 128 \<le> real sr" by simp
  have ge: "real (?N div C) \<le> ?f" by (rule frameCount_bounds(1)[OF N53])
  have filled: "fillChannels (int16s data) C ?f 0 (replicate C (replicate (?N div C) (Num 0))) =
         map (\<lambda>c. map (\<lambda>i. Num (real_of_int (sint (int16s data ! (i * C + c))) / 32768))
                             [0..<?N div C]) [0..<C]"
    by (rule fillChannels_decoded[OF _ ge]) (simp_all add: length_int16s)
  have cb: "createBuffer ctx C ?f sr =
     (if C = 0 \<or> maxChannels ctx < C \<or> ?N < C \<or>
         sr = 0 \<or> sr < minSampleRate ctx \<or> maxSampleRate ctx < sr
      then Inl NotSupportedError
      else case unavailable ctx C (?N div C) of
             Some e \<Rightarrow> Inl e
           | None \<Rightarrow> Inr \<lparr>bufLength = ?N div C, bufSampleRate = real sr,
                           channelData = replicate C (replicate (?N div C) (Num 0))\<rparr>)"
  proof (cases "C < 2 ^ 32")
    case True
    then have c: "C mod 2 ^ 32 = C" by (rule mod_less)
    have "0 < C \<Longrightarrow> (?N div C = 0) = (?N < C)" by (simp add: div_eq_0_iff)
    then show ?thesis unfolding createBuffer_def Let_def fl n c rate using small by auto
  next
    case False
    with N32 have lt: "?N < C" by simp
    then have z: "?N div C = 0" by simp
    show ?thesis unfolding createBuffer_def Let_def fl n z rate using lt small by simp
  qed
  have dec: "decodePcmData data ctx sr C =
     (if odd (length data) then Inl RangeError
      else case createBuffer ctx C ?f sr of
             Inl e \<Rightarrow> Inl e
           | Inr buffer \<Rightarrow>
               if length (channelData buffer) < C then Inl IndexSizeError
               else Inr (buffer\<lparr>channelData :=
                           fillChannels (int16s data) C ?f 0 (channelData buffer)\<rparr>))"
    by (simp add: decodePcmData_def newInt16Array_def length_int16s Let_def)
  show ?thesis unfolding dec cb using filled by (simp split: option.splits)
qed

lemma upt_0_2: "[0..<2] = [0, 1]"
  by (simp add: numeral_2_eq_2)

section \<open>Claims about the PCM decoder\<close>

text \<open>
  Claim C1, as the code has it. The bytes are read as \<open>N\<close> signed 16-bit little-endian
  integers, \<open>N\<close> below \<open>2 ^ 32\<close>; the sample rate is a whole number below \<open>2 ^ 24\<close>, which
  the float of the interface holds exactly. The decoder returns a buffer when the byte
  length is even, \<open>1 \<le> C \<le> N\<close>, and \<^verbatim>\<open>createBuffer\<close> of the context accepts \<open>C\<close>
  channels, \<open>N div C\<close> frames and the sample rate: channel count and rate within the
  ranges of the implementation, and the buffer to be had. Whenever it returns a buffer,
  then \<open>1 \<le> C \<le> N\<close>, the buffer has \<open>C\<close> channels of \<open>N div C\<close> frames each, and frame
  \<open>i\<close> of channel \<open>c\<close> is the integer at index \<open>i * C + c\<close> divided by \<open>32768\<close>. In
  particular \<open>0\<close> decodes to \<open>0\<close>, \<open>32767\<close> to \<open>32767 / 32768\<close> and \<open>-32768\<close> to \<open>-1\<close>, by
  the same division.
\<close>

theorem decodePcmData_samples:
  "(even (length data) \<and> length data < 2 ^ 33 \<and> 0 < C \<and> C \<le> length (int16s data) \<and>
    C \<le> maxChannels ctx \<and> 0 < sampleRate \<and> sampleRate < 2 ^ 24 \<and>
    minSampleRate ctx \<le> sampleRate \<and> sampleRate \<le> maxSampleRate ctx \<and>
    unavailable ctx C (length (int16s data) div C) = None \<longrightarrow>
      (\<exists>buffer. decodePcmData data ctx sampleRate C = Inr buffer)) \<and>
   (\<forall>buffer. length data < 2 ^ 33 \<and> sampleRate < 2 ^ 24 \<and>
      decodePcmData data ctx sampleRate C = Inr buffer \<longrightarrow>
      length (int16s data) = length data div 2 \<and>
      0 < C \<and> C \<le> length (int16s data) \<and>
      bufLength buffer = length (int16s data) div C \<and>
      bufSampleRate buffer = real sampleRate \<and>
      length (channelData buffer) = C \<and>
      (\<forall>c<C. length (channelData buffer ! c) = bufLength buffer \<and>
         (\<forall>i<bufLength buffer.
            channelData buffer ! c ! i =
              Num (real_of_int (sint (int16s data ! (i * C + c))) / 32768)))) \<and>
   decodePcmData [0x00, 0x00] exampleContext 24000 1 =
      Inr \<lparr>bufLength = 1, bufSampleRate = 24000, channelData = [[Num 0]]\<rparr> \<and>
   decodePcmData [0xFF, 0x7F] exampleContext 24000 1 =
      Inr \<lparr>bufLength = 1, bufSampleRate = 24000, channelData = [[Num (32767 / 32768)]]\<rparr> \<and>
   decodePcmData [0x00, 0x80] exampleContext 24000 1 =
      Inr \<lparr>bufLength = 1, bufSampleRate = 24000, channelData = [[Num (- 1)]]\<rparr>"
proof (intro conjI allI impI)
  assume a: "even (length data) \<and> length data < 2 ^ 33 \<and> 0 < C \<and> C \<le> length (int16s data) \<and>
    C \<le> maxChannels ctx \<and> 0 < sampleRate \<and> sampleRate < 2 ^ 24 \<and>
    minSampleRate ctx \<le> sampleRate \<and> sampleRate \<le> maxSampleRate ctx \<and>
    unavailable ctx C (length (int16s data) div C) = None"
  then have "length data < 2 ^ 33" "sampleRate < 2 ^ 24" by simp_all
  from decodePcmData_cases[OF this] a
  show "\<exists>buffer. decodePcmData data ctx sampleRate C = Inr buffer"
    by (simp add: length_int16s)
next
  fix buffer
  assume a: "length data < 2 ^ 33 \<and> sampleRate < 2 ^ 24 \<and>
      decodePcmData data ctx sampleRate C = Inr buffer"
  then have l: "length data < 2 ^ 33" "sampleRate < 2 ^ 24"
    and d: "decodePcmData data ctx sampleRate C = Inr buffer"
    by simp_all
  from d have b: "buffer = \<lparr>bufLength = length data div 2 div C, bufSampleRate = real sampleRate,
      channelData =
        map (\<lambda>c. map (\<lambda>i. Num (real_of_int (sint (int16s data ! (i * C + c))) / 32768))
                   [0..<length data div 2 div C]) [0..<C]\<rparr>"
    and C: "0 < C" and N: "C \<le> length data div 2"
    unfolding decodePcmData_cases[OF l] by (simp_all split: if_splits option.splits)
  show "length (int16s data) = length data div 2" by (rule length_int16s)
  show "0 < C" by (rule C)
  show "C \<le> length (int16s data)" using N by (simp add: length_int16s)
  show "bufLength buffer = length (int16s data) div C" by (simp add: b length_int16s)
  show "bufSampleRate buffer = real sampleRate" by (simp add: b)
  show "length (channelData buffer) = C" by (simp add: b)
  fix c
  assume c: "c < C"
  show "length (channelData buffer ! c) = bufLength buffer" using c by (simp add: b)
  fix i
  assume "i < bufLength buffer"
  then show "channelData buffer ! c ! i =
      Num (real_of_int (sint (int16s data ! (i * C + c))) / 32768)"
    using c by (simp add: b)
next
  show "decodePcmData [0x00, 0x00] exampleContext 24000 1 =
      Inr \<lparr>bufLength = 1, bufSampleRate = 24000, channelData = [[Num 0]]\<rparr>"
    by (simp add: decodePcmData_cases exampleContext_def)
  show "decodePcmData [0xFF, 0x7F] exampleContext 24000 1 =
      Inr \<lparr>bufLength = 1, bufSampleRate = 24000, channelData = [[Num (32767 / 32768)]]\<rparr>"
    by (simp add: decodePcmData_cases exampleContext_def)
  show "decodePcmData [0x00, 0x80] exampleContext 24000 1 =
      Inr \<lparr>bufLength = 1, bufSampleRate = 24000, channelData = [[Num (- 1)]]\<rparr>"
    by (simp add: decodePcmData_cases exampleContext_def)
qed

text \<open>
  The theorem at eight bytes and two channels: four samples \<open>-32768, 32767, 0, 1\<close>, two
  frames, the even samples in channel 0 and the odd ones in channel 1.
\<close>

theorem decodePcmData_samples_witness:
  "even (length [0x00, 0x80, 0xFF, 0x7F, 0x00, 0x00, 0x01, 0x00 :: byte]) \<and>
   length [0x00, 0x80, 0xFF, 0x7F, 0x00, 0x00, 0x01, 0x00 :: byte] < 2 ^ 33 \<and>
   2 \<le> length (int16s [0x00, 0x80, 0xFF, 0x7F, 0x00, 0x00, 0x01, 0x00]) \<and>
   2 \<le> maxChannels exampleContext \<and> (24000 :: nat) < 2 ^ 24 \<and>
   minSampleRate exampleContext \<le> 24000 \<and> 24000 \<le> maxSampleRate exampleContext \<and>
   unavailable exampleContext 2
     (length (int16s [0x00, 0x80, 0xFF, 0x7F, 0x00, 0x00, 0x01, 0x00]) div 2) = None \<and>
   decodePcmData [0x00, 0x80, 0xFF, 0x7F, 0x00, 0x00, 0x01, 0x00] exampleContext 24000 2 =
     Inr \<lparr>bufLength = 2, bufSampleRate = 24000,
          channelData = [[Num (- 1), Num 0], [Num (32767 / 32768), Num (1 / 32768)]]\<rparr>"
proof -
  let ?data = "[0x00, 0x80, 0xFF, 0x7F, 0x00, 0x00, 0x01, 0x00] :: byte list"
  have h: "even (length ?data) \<and> length ?data < 2 ^ 33 \<and> (0 :: nat) < 2 \<and>
           2 \<le> length (int16s ?data) \<and> 2 \<le> maxChannels exampleContext \<and>
           (0 :: nat) < 24000 \<and> (24000 :: nat) < 2 ^ 24 \<and>
           minSampleRate exampleContext \<le> 24000 \<and> 24000 \<le> maxSampleRate exampleContext \<and>
           unavailable exampleContext 2 (length (int16s ?data) div 2) = None"
    by (simp add: exampleContext_def)
  from decodePcmData_samples[of ?data 2 exampleContext 24000] h
  obtain buffer where ok: "decodePcmData ?data exampleContext 24000 2 = Inr buffer"
    by blast
  from decodePcmData_samples[of ?data 2 exampleContext 24000] ok h
  have frames: "bufLength buffer = length (int16s ?data) div 2"
    by blast
  have "decodePcmData ?data exampleContext 24000 2 = Inr \<lparr>bufLength = 2, bufSampleRate = 24000,
          channelData = [[Num (- 1), Num 0], [Num (32767 / 32768), Num (1 / 32768)]]\<rparr>"
    by (simp add: decodePcmData_cases exampleContext_def upt_0_2)
  with frames h show ?thesis by simp
qed

text \<open>
  Claim C1 as stated fails at the empty input: it holds \<open>N = 0\<close> integers, and for one
  channel the decoder produces no buffer of \<open>0 / 1\<close> frames but fails, because
  \<^verbatim>\<open>createBuffer\<close> refuses a buffer without frames.
\<close>

theorem decodePcmData_empty_refused:
  "length (int16s ([] :: byte list)) = 0 \<and>
   decodePcmData [] exampleContext 24000 1 = Inl NotSupportedError"
  by (simp add: decodePcmData_cases)

text \<open>
  Claim C2, as the code has it. The decoder makes no check of its own and knows no
  \<^verbatim>\<open>MalformedAudioError\<close>. An input of odd byte length fails, with the \<^verbatim>\<open>RangeError\<close> of
  the \<^verbatim>\<open>Int16Array\<close> view. For an input of even byte length with \<open>N\<close> samples, \<open>N\<close> below
  \<open>2 ^ 32\<close>, and a sample rate that is a whole number below \<open>2 ^ 24\<close>, the outcome is that
  of \<^verbatim>\<open>createBuffer\<close> for \<open>C\<close> channels, \<open>N div C\<close> frames and the sample rate. With
  \<open>C = 0\<close>, with \<open>N < C\<close> (so for the empty input), with more channels than the
  implementation supports, or with a sample rate that is zero or outside the range of the
  implementation it fails with \<^verbatim>\<open>NotSupportedError\<close>; with arguments in range but a
  buffer that the implementation cannot provide it fails with the error of the
  implementation; in every other case it succeeds with \<open>N div C\<close> frames, whether or not
  the byte length is a multiple of \<open>2 * C\<close> (samples beyond the last whole frame are
  dropped), and when it is a multiple these are exactly \<open>N / C\<close> frames.
\<close>

theorem decodePcmData_outcome:
  "(odd (length data) \<longrightarrow> decodePcmData data ctx sampleRate C = Inl RangeError) \<and>
   (even (length data) \<and> length data < 2 ^ 33 \<and> sampleRate < 2 ^ 24 \<and>
    (C = 0 \<or> length data div 2 < C \<or> maxChannels ctx < C \<or>
     sampleRate = 0 \<or> sampleRate < minSampleRate ctx \<or> maxSampleRate ctx < sampleRate) \<longrightarrow>
      decodePcmData data ctx sampleRate C = Inl NotSupportedError) \<and>
   (\<forall>e. even (length data) \<and> length data < 2 ^ 33 \<and> 0 < C \<and> C \<le> length data div 2 \<and>
    C \<le> maxChannels ctx \<and> 0 < sampleRate \<and> sampleRate < 2 ^ 24 \<and>
    minSampleRate ctx \<le> sampleRate \<and> sampleRate \<le> maxSampleRate ctx \<and>
    unavailable ctx C (length data div 2 div C) = Some e \<longrightarrow>
      decodePcmData data ctx sampleRate C = Inl e) \<and>
   (even (length data) \<and> length data < 2 ^ 33 \<and> 0 < C \<and> C \<le> length data div 2 \<and>
    C \<le> maxChannels ctx \<and> 0 < sampleRate \<and> sampleRate < 2 ^ 24 \<and>
    minSampleRate ctx \<le> sampleRate \<and> sampleRate \<le> maxSampleRate ctx \<and>
    unavailable ctx C (length data div 2 div C) = None \<longrightarrow>
      (\<exists>buffer. decodePcmData data ctx sampleRate C = Inr buffer \<and>
         bufLength buffer = length data div 2 div C \<and>
         (length data mod (2 * C) = 0 \<longrightarrow> bufLength buffer * C = length data div 2)))"
proof (intro conjI impI allI)
  assume "odd (length data)"
  then show "decodePcmData data ctx sampleRate C = Inl RangeError"
    by (simp add: decodePcmData_def newInt16Array_def)
next
  assume a: "even (length data) \<and> length data < 2 ^ 33 \<and> sampleRate < 2 ^ 24 \<and>
    (C = 0 \<or> length data div 2 < C \<or> maxChannels ctx < C \<or>
     sampleRate = 0 \<or> sampleRate < minSampleRate ctx \<or> maxSampleRate ctx < sampleRate)"
  then have "length data < 2 ^ 33" "sampleRate < 2 ^ 24" by simp_all
  from decodePcmData_cases[OF this] a
  show "decodePcmData data ctx sampleRate C = Inl NotSupportedError"
    by auto
next
  fix e
  assume a: "even (length data) \<and> length data < 2 ^ 33 \<and> 0 < C \<and> C \<le> length data div 2 \<and>
    C \<le> maxChannels ctx \<and> 0 < sampleRate \<and> sampleRate < 2 ^ 24 \<and>
    minSampleRate ctx \<le> sampleRate \<and> sampleRate \<le> maxSampleRate ctx \<and>
    unavailable ctx C (length data div 2 div C) = Some e"
  then have "length data < 2 ^ 33" "sampleRate < 2 ^ 24" by simp_all
  from decodePcmData_cases[OF this] a
  show "decodePcmData data ctx sampleRate C = Inl e"
    by simp
next
  assume a: "even (length data) \<and> length data < 2 ^ 33 \<and> 0 < C \<and> C \<le> length data div 2 \<and>
    C \<le> maxChannels ctx \<and> 0 < sampleRate \<and> sampleRate < 2 ^ 24 \<and>
    minSampleRate ctx \<le> sampleRate \<and> sampleRate \<le> maxSampleRate ctx \<and>
    unavailable ctx C (length data div 2 div C) = None"
  then have l: "length data < 2 ^ 33" "sampleRate < 2 ^ 24" by simp_all
  have "length data div 2 div C * C = length data div 2" if "length data mod (2 * C) = 0"
  proof -
    from that have "2 * C dvd length data" by (simp add: dvd_eq_mod_eq_0)
    then obtain k where "length data = 2 * C * k" ..
    then show ?thesis using a by simp
  qed
  with decodePcmData_cases[OF l] a
  show "\<exists>buffer. decodePcmData data ctx sampleRate C = Inr buffer \<and>
         bufLength buffer = length data div 2 div C \<and>
         (length data mod (2 * C) = 0 \<longrightarrow> bufLength buffer * C = length data div 2)"
    by simp
qed

text \<open>
  The theorem at six bytes and two channels (a byte length that is no multiple of four),
  at three bytes, at the empty input, at a sample rate below the range of the context,
  at 33 channels with 34 samples, and on a context without memory.
\<close>

theorem decodePcmData_outcome_witness:
  "(\<exists>buffer. decodePcmData [1, 0, 2, 0, 3, 0] exampleContext 24000 2 = Inr buffer \<and>
      bufLength buffer = 1) \<and>
   decodePcmData [1, 0, 2] exampleContext 24000 1 = Inl RangeError \<and>
   decodePcmData [] exampleContext 24000 1 = Inl NotSupportedError \<and>
   decodePcmData [1, 0, 2, 0] exampleContext 2999 1 = Inl NotSupportedError \<and>
   decodePcmData (replicate 68 0) exampleContext 24000 33 = Inl NotSupportedError \<and>
   decodePcmData [1, 0, 2, 0]
     (exampleContext\<lparr>unavailable := (\<lambda>channels frames. Some OutOfMemory)\<rparr>)
     24000 1 = Inl OutOfMemory"
  using decodePcmData_outcome[of "[1, 0, 2, 0, 3, 0]" exampleContext 24000 2]
        decodePcmData_outcome[of "[1, 0, 2]" exampleContext 24000 1]
        decodePcmData_outcome[of "[]" exampleContext 24000 1]
        decodePcmData_outcome[of "[1, 0, 2, 0]" exampleContext 2999 1]
        decodePcmData_outcome[of "replicate 68 0" exampleContext 24000 33]
        decodePcmData_outcome[of "[1, 0, 2, 0]"
          "exampleContext\<lparr>unavailable := (\<lambda>channels frames. Some OutOfMemory)\<rparr>"
          24000 1]
  by (simp add: exampleContext_def)

text \<open>
  Claim C2 as stated fails: six bytes are not a multiple of \<open>2 * 2\<close>, and the decoder
  returns a buffer of one frame for two channels.
\<close>

theorem decodePcmData_not_rejected:
  "length [1, 0, 2, 0, 3, 0 :: byte] mod (2 * 2) \<noteq> 0 \<and>
   decodePcmData [1, 0, 2, 0, 3, 0] exampleContext 24000 2 =
     Inr \<lparr>bufLength = 1, bufSampleRate = 24000,
          channelData = [[Num (1 / 32768)], [Num (2 / 32768)]]\<rparr>"
  by (simp add: decodePcmData_cases exampleContext_def upt_0_2)

section \<open>The header writes\<close>

text \<open>
  The byte that a setter stores at each position, for an argument that is a natural
  number: the number divided by \<open>256\<close> to the power of the position, modulo \<open>256\<close>.
\<close>

lemma ucast_of_nat_byte16: "(ucast (of_nat n :: 16 word) :: byte) = of_nat n"
  by (rule bit_word_eqI) (auto simp add: bit_simps)

lemma ucast_drop_byte16:
  "k \<le> 8 \<Longrightarrow> (ucast (drop_bit k (of_nat n :: 16 word)) :: byte) = of_nat (drop_bit k n)"
  by (intro bit_word_eqI) (auto simp add: bit_simps)

lemma ucast_of_nat_byte32: "(ucast (of_nat n :: 32 word) :: byte) = of_nat n"
  by (rule bit_word_eqI) (auto simp add: bit_simps)

lemma ucast_drop_byte32:
  "k \<le> 24 \<Longrightarrow> (ucast (drop_bit k (of_nat n :: 32 word)) :: byte) = of_nat (drop_bit k n)"
  by (intro bit_word_eqI) (auto simp add: bit_simps)

lemma ucast_div_byte16: "(ucast (drop_bit 8 (of_nat n :: 16 word)) :: byte) = of_nat (n div 256)"
  using ucast_drop_byte16[of 8 n] by (simp add: drop_bit_eq_div)

lemma ucast_div_byte32:
  "(ucast (drop_bit 8 (of_nat n :: 32 word)) :: byte) = of_nat (n div 256)"
  "(ucast (drop_bit 16 (of_nat n :: 32 word)) :: byte) = of_nat (n div 65536)"
  "(ucast (drop_bit 24 (of_nat n :: 32 word)) :: byte) = of_nat (n div 16777216)"
  using ucast_drop_byte32[of 8 n] ucast_drop_byte32[of 16 n] ucast_drop_byte32[of 24 n]
  by (simp_all add: drop_bit_eq_div)

lemma setUint16_nat:
  "setUint16 view off (real n) = view[off := of_nat n, off + 1 := of_nat (n div 256)]"
  by (simp add: setUint16_def ucast_of_nat_byte16 ucast_div_byte16)

lemma setUint32_nat:
  "setUint32 view off (real n) =
     view[off := of_nat n, off + 1 := of_nat (n div 256), off + 2 := of_nat (n div 65536),
          off + 3 := of_nat (n div 16777216)]"
  by (simp add: setUint32_def Let_def ucast_of_nat_byte32 ucast_div_byte32)

text \<open>
  A setter drops the fraction of its argument, so for an argument that is not negative
  it stores the whole part.
\<close>

lemma setUint16_floor:
  "0 \<le> v \<Longrightarrow> setUint16 view off v = setUint16 view off (real (nat \<lfloor>v\<rfloor>))"
  by (simp add: setUint16_def)

lemma setUint32_floor:
  "0 \<le> v \<Longrightarrow> setUint32 view off v = setUint32 view off (real (nat \<lfloor>v\<rfloor>))"
  by (simp add: setUint32_def)

lemma writeString4:
  "writeString view off [a, b, c, d] =
     view[off := of_nat (of_char a), off + 1 := of_nat (of_char b),
          off + 2 := of_nat (of_char c), off + 3 := of_nat (of_char d)]"
proof -
  have 3: "off + 3 = Suc (Suc (Suc off))" and 2: "off + 2 = Suc (Suc off)" by simp_all
  show ?thesis
    unfolding writeString_def 3 2
    by (subst writeStringFrom.simps, simp add: setUint8_def)+
qed

lemma list_update_Cons_numeral: "(x # xs)[numeral v := y] = x # xs[numeral v - 1 := y]"
  by (simp add: numeral_eq_Suc)

lemma replicate44:
  "replicate 44 x =
     [x, x, x, x, x, x, x, x, x, x, x, x, x, x, x, x, x, x, x, x, x, x,
      x, x, x, x, x, x, x, x, x, x, x, x, x, x, x, x, x, x, x, x, x, x]"
  by (simp add: numeral_eq_Suc)

text \<open>
  The file that \<^verbatim>\<open>pcmToWav\<close> resolves with, field by field, the three computed fields
  as the doubles that the program computes.
\<close>

lemma pcmToWav_layout:
  "pcmToWav (OnLoad (Some pcm)) sr nc bps =
     Inr (tag ''RIFF'' @ u32le (nat \<lfloor>jsAdd 36 (real (length pcm))\<rfloor>) @ tag ''WAVE'' @
          tag ''fmt '' @ u32le 16 @ u16le 1 @ u16le nc @ u32le sr @
          u32le (nat \<lfloor>jsMul (jsMul (real sr) (real nc)) (jsDiv (real bps) 8)\<rfloor>) @
          u16le (nat \<lfloor>jsMul (real nc) (jsDiv (real bps) 8)\<rfloor>) @ u16le bps @
          tag ''data'' @ u32le (length pcm) @ pcm)"
proof -
  have p1: "0 \<le> jsAdd 36 (real (length pcm))"
    by (simp add: jsAdd_def toDouble_nonneg)
  have "0 \<le> jsDiv (real bps) 8" by (simp add: jsDiv_def toDouble_nonneg)
  moreover have "0 \<le> jsMul (real sr) (real nc)" by (simp add: jsMul_def toDouble_nonneg)
  ultimately have p2: "0 \<le> jsMul (jsMul (real sr) (real nc)) (jsDiv (real bps) 8)"
    and p3: "0 \<le> jsMul (real nc) (jsDiv (real bps) 8)"
    by (simp_all add: jsMul_def toDouble_nonneg)
  note s1 = setUint32_floor[OF p1] and s2 = setUint32_floor[OF p2]
    and s3 = setUint16_floor[OF p3]
  have n16: "(16 :: real) = real 16" and n1: "(1 :: real) = real 1" by simp_all
  show ?thesis
    unfolding pcmToWav_def reader_event.case option.case Let_def s1 s2 s3 n16 n1
      setUint32_nat setUint16_nat writeString4
      replicate44 u32le_def u16le_def tag_def
    by (simp add: list_update_Cons_numeral)
qed

text \<open>
  The three computed fields when the numbers that arise are whole numbers below
  \<open>2 ^ 53\<close>, or eighths of such: no operation rounds, and the whole part of a number of
  eighths is the integer quotient by 8.
\<close>

lemma floor_eighths: "nat \<lfloor>real n / 8\<rfloor> = n div 8"
proof -
  have "real n / 8 = real n / real 8" by simp
  then have "\<lfloor>real n / 8\<rfloor> = int (n div 8)" by (simp only: floor_divide_of_nat_eq)
  then show ?thesis by simp
qed

lemma fileSize_exact:
  assumes "36 + D < 2 ^ 53"
  shows "nat \<lfloor>jsAdd 36 (real D)\<rfloor> = 36 + D"
proof -
  have "jsAdd 36 (real D) = toDouble (real (36 + D))" by (simp add: jsAdd_def)
  also have "\<dots> = real (36 + D)" by (rule toDouble_nat[OF assms])
  finally show ?thesis by (simp only: floor_of_nat nat_int)
qed

lemma scaled_exact:
  assumes "b < 2 ^ 53" "a * b < 2 ^ 53"
  shows "nat \<lfloor>jsMul (real a) (jsDiv (real b) 8)\<rfloor> = a * b div 8"
proof -
  have e: "jsDiv (real b) 8 = real b / 8"
    unfolding jsDiv_def by (rule toDouble_eighths[OF assms(1)])
  have m: "real a * (real b / 8) = real (a * b) / 8" by simp
  have "jsMul (real a) (jsDiv (real b) 8) = toDouble (real (a * b) / 8)"
    unfolding jsMul_def e m ..
  also have "\<dots> = real (a * b) / 8" by (rule toDouble_eighths[OF assms(2)])
  finally show ?thesis by (simp only: floor_eighths)
qed

lemma byteRate_exact:
  assumes "bps < 2 ^ 53" "sr * nc < 2 ^ 53" "sr * nc * bps < 2 ^ 53"
  shows "nat \<lfloor>jsMul (jsMul (real sr) (real nc)) (jsDiv (real bps) 8)\<rfloor> = sr * nc * bps div 8"
proof -
  have "jsMul (real sr) (real nc) = toDouble (real (sr * nc))" by (simp add: jsMul_def)
  also have "\<dots> = real (sr * nc)" by (rule toDouble_nat[OF assms(2)])
  finally show ?thesis using scaled_exact[OF assms(1,3)] by simp
qed

lemma leNat_u16le: "leNat (u16le n) = n mod 65536"
proof -
  have "n mod 65536 = n mod (256 * 256)" by simp
  also have "\<dots> = 256 * (n div 256 mod 256) + n mod 256" by (rule mod_mult2_eq)
  finally show ?thesis by (simp add: leNat_def u16le_def unat_of_nat)
qed

lemma leNat_u32le: "leNat (u32le n) = n mod 4294967296"
proof -
  have d2: "n div 256 div 256 = n div 65536" and d3: "n div 65536 div 256 = n div 16777216"
    by (simp_all add: div_mult2_eq[symmetric])
  have "n mod 4294967296 = n mod (256 * 16777216)" by simp
  also have "\<dots> = 256 * (n div 256 mod 16777216) + n mod 256" by (rule mod_mult2_eq)
  also have "n div 256 mod 16777216 = n div 256 mod (256 * 65536)" by simp
  also have "\<dots> = 256 * (n div 65536 mod 65536) + n div 256 mod 256"
    unfolding mod_mult2_eq d2 ..
  also have "n div 65536 mod 65536 = n div 65536 mod (256 * 256)" by simp
  also have "\<dots> = 256 * (n div 16777216 mod 256) + n div 65536 mod 256"
    unfolding mod_mult2_eq d3 ..
  finally show ?thesis by (simp add: leNat_def u32le_def unat_of_nat)
qed

lemma length_fields [simp]: "length (u16le n) = 2" "length (u32le n) = 4" "length (tag [a, b, c, d]) = 4"
  by (simp_all add: u16le_def u32le_def tag_def)

section \<open>Claims about the WAV encoder\<close>

text \<open>
  Claim C3. The header is computed in the numbers of the program, which are doubles. When
  the numbers that arise are whole numbers below \<open>2 ^ 53\<close> (the file size \<open>36 + D\<close>, the
  bits per sample and the products of the parameters), then for PCM data of \<open>D\<close> bytes
  the encoder resolves with a file whose first 44 bytes are, in this order: \<^verbatim>\<open>"RIFF"\<close>,
  \<open>36 + D\<close> as a little-endian u32 (bytes 4 to 7), \<^verbatim>\<open>"WAVE"\<close>, \<^verbatim>\<open>"fmt "\<close>, \<open>16\<close> as u32,
  \<open>1\<close> as u16, the channel count as u16 (bytes 22 and 23), the sample rate as u32 (bytes
  24 to 27), the byte rate \<open>sampleRate * numChannels * bitsPerSample / 8\<close> as u32, the
  block align \<open>numChannels * bitsPerSample / 8\<close> as u16, the bits per sample as u16,
  \<^verbatim>\<open>"data"\<close>, and \<open>D\<close> as u32. A field of \<open>w\<close> bits holds its value modulo \<open>2 ^ w\<close>, a
  quotient by 8 without its fraction.
\<close>

theorem pcmToWav_header:
  assumes "36 + length pcmData < 2 ^ 53" and "bitsPerSample < 2 ^ 53"
      and "sampleRate * numChannels < 2 ^ 53" and "numChannels * bitsPerSample < 2 ^ 53"
      and "sampleRate * numChannels * bitsPerSample < 2 ^ 53"
  shows "\<exists>wav. pcmToWav (OnLoad (Some pcmData)) sampleRate numChannels bitsPerSample = Inr wav \<and>
     wav = tag ''RIFF'' @ u32le (36 + length pcmData) @ tag ''WAVE'' @
           tag ''fmt '' @ u32le 16 @ u16le 1 @ u16le numChannels @ u32le sampleRate @
           u32le (sampleRate * numChannels * bitsPerSample div 8) @
           u16le (numChannels * bitsPerSample div 8) @ u16le bitsPerSample @
           tag ''data'' @ u32le (length pcmData) @ pcmData \<and>
     length wav = 44 + length pcmData \<and>
     take 4 (drop 4 wav) = u32le (36 + length pcmData) \<and>
     leNat (take 4 (drop 4 wav)) = (36 + length pcmData) mod 2 ^ 32 \<and>
     take 2 (drop 22 wav) = u16le numChannels \<and>
     leNat (take 2 (drop 22 wav)) = numChannels mod 2 ^ 16 \<and>
     take 4 (drop 24 wav) = u32le sampleRate \<and>
     leNat (take 4 (drop 24 wav)) = sampleRate mod 2 ^ 32 \<and>
     leNat (take 4 (drop 40 wav)) = length pcmData mod 2 ^ 32"
proof -
  let ?wav = "tag ''RIFF'' @ u32le (36 + length pcmData) @ tag ''WAVE'' @
           tag ''fmt '' @ u32le 16 @ u16le 1 @ u16le numChannels @ u32le sampleRate @
           u32le (sampleRate * numChannels * bitsPerSample div 8) @
           u16le (numChannels * bitsPerSample div 8) @ u16le bitsPerSample @
           tag ''data'' @ u32le (length pcmData) @ pcmData"
  have res: "pcmToWav (OnLoad (Some pcmData)) sampleRate numChannels bitsPerSample = Inr ?wav"
    unfolding pcmToWav_layout fileSize_exact[OF assms(1)] byteRate_exact[OF assms(2,3,5)]
      scaled_exact[OF assms(2,4)] ..
  have len: "length ?wav = 44 + length pcmData"
    by simp
  have fileSize: "take 4 (drop 4 ?wav) = u32le (36 + length pcmData)"
    and channels: "take 2 (drop 22 ?wav) = u16le numChannels"
    and rate: "take 4 (drop 24 ?wav) = u32le sampleRate"
    and dataSize: "take 4 (drop 40 ?wav) = u32le (length pcmData)"
    by simp_all
  have fileSize_value: "leNat (take 4 (drop 4 ?wav)) = (36 + length pcmData) mod 2 ^ 32"
    unfolding fileSize leNat_u32le by simp
  have channels_value: "leNat (take 2 (drop 22 ?wav)) = numChannels mod 2 ^ 16"
    unfolding channels leNat_u16le by simp
  have rate_value: "leNat (take 4 (drop 24 ?wav)) = sampleRate mod 2 ^ 32"
    unfolding rate leNat_u32le by simp
  have dataSize_value: "leNat (take 4 (drop 40 ?wav)) = length pcmData mod 2 ^ 32"
    unfolding dataSize leNat_u32le by simp
  show ?thesis
    by (rule exI[of _ ?wav])
       (intro conjI res refl len fileSize fileSize_value channels channels_value rate
          rate_value dataSize_value)
qed

text \<open>The theorem at four bytes of PCM data, 24000 Hz, one channel, 16 bits.\<close>

theorem pcmToWav_header_witness:
  "36 + length [1, 2, 3, 4 :: byte] < 2 ^ 53 \<and> (16 :: nat) < 2 ^ 53 \<and>
   (24000 :: nat) * 1 < 2 ^ 53 \<and> (1 :: nat) * 16 < 2 ^ 53 \<and> (24000 :: nat) * 1 * 16 < 2 ^ 53 \<and>
   pcmToWav (OnLoad (Some [1, 2, 3, 4])) 24000 1 16 =
     Inr [0x52, 0x49, 0x46, 0x46, 40, 0, 0, 0, 0x57, 0x41, 0x56, 0x45,
          0x66, 0x6D, 0x74, 0x20, 16, 0, 0, 0, 1, 0, 1, 0, 0xC0, 0x5D, 0, 0,
          0x80, 0xBB, 0, 0, 2, 0, 16, 0, 0x64, 0x61, 0x74, 0x61, 4, 0, 0, 0,
          1, 2, 3, 4]"
  using pcmToWav_header[of "[1, 2, 3, 4]" 16 24000 1]
  by (simp add: u32le_def u16le_def tag_def)

text \<open>
  Claim C4. For an input of any length, even or odd, and any parameters, the file is a
  header of 44 bytes followed by the PCM bytes as they were given. The header ends in the
  data chunk's tag \<^verbatim>\<open>"data"\<close> at bytes 36 to 39 and the length of the input as u32 at
  bytes 40 to 43; before them stand \<^verbatim>\<open>"RIFF"\<close>, the file size, \<^verbatim>\<open>"WAVE"\<close>, \<^verbatim>\<open>"fmt "\<close> and
  the format fields (the three computed fields are the matter of claim C3). Dropping the
  first 44 bytes gives the input back, and for an input of less than \<open>2 ^ 32\<close> bytes, a
  length that the size field holds, a reader of the file finds the input as the payload
  of the data chunk.
\<close>

theorem pcmToWav_payload:
  "\<exists>wav fileSize byteRate blockAlign.
     pcmToWav (OnLoad (Some pcmData)) sampleRate numChannels bitsPerSample = Inr wav \<and>
     length fileSize = 4 \<and> length byteRate = 4 \<and> length blockAlign = 2 \<and>
     wav = tag ''RIFF'' @ fileSize @ tag ''WAVE'' @
           tag ''fmt '' @ u32le 16 @ u16le 1 @ u16le numChannels @ u32le sampleRate @
           byteRate @ blockAlign @ u16le bitsPerSample @
           tag ''data'' @ u32le (length pcmData) @ pcmData \<and>
     length wav = 44 + length pcmData \<and>
     take 4 (drop 36 wav) = tag ''data'' \<and>
     take 4 (drop 40 wav) = u32le (length pcmData) \<and>
     leNat (take 4 (drop 40 wav)) = length pcmData mod 2 ^ 32 \<and>
     drop 44 wav = pcmData \<and>
     (length pcmData < 2 ^ 32 \<longrightarrow> dataChunk wav = Some pcmData)"
proof -
  let ?F = "u32le (nat \<lfloor>jsAdd 36 (real (length pcmData))\<rfloor>)"
  let ?R = "u32le (nat \<lfloor>jsMul (jsMul (real sampleRate) (real numChannels))
                            (jsDiv (real bitsPerSample) 8)\<rfloor>)"
  let ?A = "u16le (nat \<lfloor>jsMul (real numChannels) (jsDiv (real bitsPerSample) 8)\<rfloor>)"
  let ?wav = "tag ''RIFF'' @ ?F @ tag ''WAVE'' @
           tag ''fmt '' @ u32le 16 @ u16le 1 @ u16le numChannels @ u32le sampleRate @
           ?R @ ?A @ u16le bitsPerSample @
           tag ''data'' @ u32le (length pcmData) @ pcmData"
  have res: "pcmToWav (OnLoad (Some pcmData)) sampleRate numChannels bitsPerSample = Inr ?wav"
    by (rule pcmToWav_layout)
  have lens: "length ?F = 4" "length ?R = 4" "length ?A = 2" by simp_all
  have len: "length ?wav = 44 + length pcmData" by simp
  have tg: "take 4 (drop 36 ?wav) = tag ''data''"
    and sz: "take 4 (drop 40 ?wav) = u32le (length pcmData)"
    and pl: "drop 44 ?wav = pcmData"
    by simp_all
  have szv: "leNat (take 4 (drop 40 ?wav)) = length pcmData mod 2 ^ 32"
    unfolding sz leNat_u32le by simp
  have ch: "dataChunk ?wav = Some pcmData" if "length pcmData < 2 ^ 32"
  proof -
    from that have "leNat (take 4 (drop 40 ?wav)) = length pcmData" unfolding szv by simp
    then show ?thesis unfolding dataChunk_def Let_def tg pl len by simp
  qed
  show ?thesis
    apply (rule exI[of _ ?wav], rule exI[of _ ?F], rule exI[of _ ?R], rule exI[of _ ?A])
    apply (intro conjI impI res lens refl len tg sz szv pl)
    apply (erule ch)
    done
qed

text \<open>The theorem at the four bytes \<open>34 12 FF 7F\<close>: the file, and its data chunk.\<close>

theorem pcmToWav_payload_witness:
  "length [0x34, 0x12, 0xFF, 0x7F :: byte] < 2 ^ 32 \<and>
   (\<exists>wav. pcmToWav (OnLoad (Some [0x34, 0x12, 0xFF, 0x7F])) 24000 1 16 = Inr wav \<and>
      length wav = 48 \<and> drop 44 wav = [0x34, 0x12, 0xFF, 0x7F] \<and>
      take 8 (drop 36 wav) = [0x64, 0x61, 0x74, 0x61, 4, 0, 0, 0] \<and>
      dataChunk wav = Some [0x34, 0x12, 0xFF, 0x7F])"
proof -
  let ?pcm = "[0x34, 0x12, 0xFF, 0x7F] :: byte list"
  have l: "length ?pcm < 2 ^ 32" by simp
  from pcmToWav_payload[of ?pcm 24000 1 16]
  obtain wav fileSize byteRate blockAlign where
    w: "pcmToWav (OnLoad (Some ?pcm)) 24000 1 16 = Inr wav"
    and n: "length wav = 44 + length ?pcm"
    and t: "take 4 (drop 36 wav) = tag ''data''"
    and s: "take 4 (drop 40 wav) = u32le (length ?pcm)"
    and p: "drop 44 wav = ?pcm"
    and c: "length ?pcm < 2 ^ 32 \<longrightarrow> dataChunk wav = Some ?pcm"
    by blast
  have "take 8 (drop 36 wav) = take 4 (drop 36 wav) @ take 4 (drop 40 wav)"
    by (simp add: take_add[of 4 4 "drop 36 wav", simplified])
  then have "take 8 (drop 36 wav) = [0x64, 0x61, 0x74, 0x61, 4, 0, 0, 0]"
    unfolding t s by (simp add: tag_def u32le_def)
  with l w n p c show ?thesis by simp
qed

section \<open>The transport's invariant, callback by callback\<close>

lemma clearTimer_active:
  "t < length ivs \<Longrightarrow>
   ivActive (clearTimer r ivs ! t) \<longleftrightarrow> ivActive (ivs ! t) \<and> r \<noteq> Some t"
proof (cases r)
  case None
  then show ?thesis by (simp add: clearTimer_def)
next
  case (Some a)
  assume "t < length ivs"
  then show ?thesis using Some
    by (cases "a = t") (simp_all add: clearTimer_def)
qed

lemma length_clearTimer [simp]: "length (clearTimer r ivs) = length ivs"
  by (simp add: clearTimer_def split: option.splits)

lemma samplerInv_clear:
  "samplerInv s \<Longrightarrow> t < length (intervals s) \<Longrightarrow>
   \<not> ivActive (clearTimer (timerRef s) (intervals s) ! t)"
  by (auto simp: clearTimer_active samplerInv_def)

lemma samplerInv_idle:
  "samplerInv s \<Longrightarrow> \<not> isPlaying s \<Longrightarrow> t < length (intervals s) \<Longrightarrow>
   \<not> ivActive (intervals s ! t)"
  by (auto simp: samplerInv_def)

text \<open>A buffer that the decoder returns has a sample rate above zero.\<close>

lemma bufDuration_nonneg:
  assumes "decodePcmData data ctx sr C = Inr b"
  shows "0 \<le> bufDuration b"
proof -
  from assms have "0 < bufSampleRate b"
    by (auto simp: decodePcmData_def createBuffer_def Let_def
             split: sum.splits if_splits option.splits)
  then show ?thesis by (simp add: bufDuration_def)
qed

text \<open>
  Each callback keeps the invariant of the playback state together with the facts about
  the timers. The two callbacks of a buffer load keep them when the transport is not
  playing.
\<close>

lemma inv_initial: "playbackInv (initialPlayer ctx) \<and> samplerInv (initialPlayer ctx)"
  by (simp add: playbackInv_def samplerInv_def initialPlayer_def)

lemma inv_Advance:
  "playbackInv s \<and> samplerInv s \<Longrightarrow>
   playbackInv (apply_event (Advance t) s) \<and> samplerInv (apply_event (Advance t) s)"
  by (auto simp: playbackInv_def samplerInv_def apply_event_def activeSource_def
           split: option.splits)

lemma inv_play:
  assumes "playbackInv s \<and> samplerInv s"
  shows "playbackInv (play s) \<and> samplerInv (play s)"
proof
  from assms have p: "playbackInv s" and t: "samplerInv s" by simp_all
  show "playbackInv (play s)"
    using p by (auto simp: play_def playbackInv_def activeSource_def Let_def nth_append
                     split: option.splits)
  show "samplerInv (play s)"
  proof (cases "audioBufferRef s = None \<or> isPlaying s")
    case True
    then show ?thesis using t by (auto simp: play_def split: option.splits)
  next
    case False
    have "0 \<le> currentTime s" using p by (simp add: playbackInv_def)
    moreover have "\<And>t. t < length (intervals s) \<Longrightarrow> \<not> ivActive (intervals s ! t)"
      using samplerInv_idle[OF t] False by simp
    ultimately show ?thesis using False
      by (auto simp: play_def samplerInv_def Let_def nth_append split: option.splits)
  qed
qed

lemma inv_pause:
  assumes "playbackInv s \<and> samplerInv s"
  shows "playbackInv (pause s) \<and> samplerInv (pause s)"
proof
  from assms have p: "playbackInv s" and t: "samplerInv s" by simp_all
  show "playbackInv (pause s)"
    using p by (auto simp: pause_def playbackInv_def split: option.splits)
  show "samplerInv (pause s)"
    using t samplerInv_clear[OF t]
    by (auto simp: pause_def samplerInv_def split: option.splits)
qed

lemma inv_onended:
  assumes "playbackInv s \<and> samplerInv s"
  shows "playbackInv (onended n s) \<and> samplerInv (onended n s)"
proof
  from assms have p: "playbackInv s" and t: "samplerInv s" by simp_all
  show "playbackInv (onended n s)"
    using p by (auto simp: onended_def playbackInv_def Let_def)
  show "samplerInv (onended n s)"
    using samplerInv_clear[OF t]
    by (auto simp: onended_def samplerInv_def Let_def)
qed

lemma inv_timerTick:
  "playbackInv s \<and> samplerInv s \<Longrightarrow> t < length (intervals s) \<Longrightarrow>
   ivActive (intervals s ! t) \<Longrightarrow>
   playbackInv (timerTick t s) \<and> samplerInv (timerTick t s)"
  by (auto simp: playbackInv_def samplerInv_def timerTick_def Let_def
                 activeSource_def min_def split: option.splits)

lemma inv_effectCleanup:
  assumes "playbackInv s \<and> samplerInv s" and i: "\<not> isPlaying s"
  shows "playbackInv (effectCleanup s) \<and> samplerInv (effectCleanup s)"
proof
  from assms have p: "playbackInv s" and t: "samplerInv s" by simp_all
  show "playbackInv (effectCleanup s)"
    using p i by (auto simp: effectCleanup_def playbackInv_def split: option.splits)
  show "samplerInv (effectCleanup s)"
    using t samplerInv_clear[OF t]
    by (auto simp: effectCleanup_def samplerInv_def split: option.splits)
qed

lemma inv_processAudio:
  assumes "playbackInv s \<and> samplerInv s" and i: "\<not> isPlaying s"
  shows "playbackInv (processAudio bytes s) \<and> samplerInv (processAudio bytes s)"
proof
  from assms have p: "playbackInv s" and t: "samplerInv s" by simp_all
  show "playbackInv (processAudio bytes s)"
  proof (cases "decodePcmData bytes (audioCtx s) 24000 1")
    case (Inl e)
    then show ?thesis using p by (simp add: processAudio_def)
  next
    case (Inr audioBuffer)
    then show ?thesis
      using p i bufDuration_nonneg[OF Inr] by (simp add: processAudio_def playbackInv_def)
  qed
  show "samplerInv (processAudio bytes s)"
    using samplerInv_idle[OF t i] t
    by (auto simp: processAudio_def samplerInv_def split: sum.splits)
qed

lemma inv_step:
  assumes "playbackInv s \<and> samplerInv s" "isLoadEvent e \<longrightarrow> \<not> isPlaying s"
  shows "playbackInv (apply_event e s) \<and> samplerInv (apply_event e s)"
proof (cases e)
  case (Advance t)
  then show ?thesis using inv_Advance[OF assms(1)] by simp
next
  case Play
  then show ?thesis using inv_play[OF assms(1)] by (simp add: apply_event_def)
next
  case Pause
  then show ?thesis using inv_pause[OF assms(1)] by (simp add: apply_event_def)
next
  case (Tick t)
  then show ?thesis using inv_timerTick[OF assms(1)] assms(1) by (simp add: apply_event_def)
next
  case (EndedEvent n)
  then show ?thesis using inv_onended[OF assms(1)] assms(1) by (simp add: apply_event_def)
next
  case Cleanup
  then show ?thesis using inv_effectCleanup[OF assms(1)] assms(2)
    by (simp add: apply_event_def isLoadEvent_def)
next
  case (Decoded bytes)
  then show ?thesis using inv_processAudio[OF assms(1)] assms(2)
    by (simp add: apply_event_def isLoadEvent_def)
qed

lemma inv_run:
  "playbackInv s \<and> samplerInv s \<Longrightarrow> quietLoads es s \<Longrightarrow>
   playbackInv (run es s) \<and> samplerInv (run es s)"
proof (induction es arbitrary: s)
  case Nil
  then show ?case by simp
next
  case (Cons e es)
  from Cons.prems have "playbackInv (apply_event e s) \<and> samplerInv (apply_event e s)"
    by (intro inv_step) simp_all
  moreover from Cons.prems have "quietLoads es (apply_event e s)" by simp
  ultimately show ?case using Cons.IH by simp
qed

text \<open>
  A clip of at least one sample, of even byte length, is decoded and loaded on a context
  that supports one channel at 24000 Hz and has memory for the samples.
\<close>

lemma processAudio_ok:
  assumes "even (length bytes)" "2 \<le> length bytes" "length bytes < 2 ^ 33"
    and "1 \<le> maxChannels (audioCtx s)" "minSampleRate (audioCtx s) \<le> 24000"
    and "24000 \<le> maxSampleRate (audioCtx s)"
    and "unavailable (audioCtx s) 1 (length bytes div 2) = None"
  shows "processAudio bytes s =
           s\<lparr>audioBufferRef := Some (projr (decodePcmData bytes (audioCtx s) 24000 1)),
             duration := real (length bytes div 2) / 24000, currentTime := 0\<rparr>"
proof -
  have "1 \<le> length bytes div 2" using assms(1,2) by auto
  then show ?thesis
    using assms by (simp add: processAudio_def bufDuration_def decodePcmData_cases[OF assms(3)])
qed

lemmas player_defs = apply_event_def play_def pause_def onended_def timerTick_def
  effectCleanup_def stopNode_def clearTimer_def playedOut_def playbackInv_def
  activeSource_def initialPlayer_def exampleContext_def isLoadEvent_def Let_def

section \<open>Claims about the playback transport\<close>




text \<open>
  Claim C8, as the code has it. The invariant holds in the initial state. Together with
  the facts about the timers it is kept by every event: the clock moving on, \<open>play\<close>,
  \<open>pause\<close>, a tick of the progress sampler and a source's \<^verbatim>\<open>ended\<close> handler in any state
  in which both hold, and the two events of a buffer load (the cleanup for a replaced
  clip, the end of a decoding) in such a state that is not playing. A tick sets the elapsed time to the time
  since the recorded start, clamped at the total duration. So the invariant holds in
  every state reached from the initial one by events among which the loads happen while
  the transport is not playing; the first load of a transport always does.
\<close>

theorem playbackInv_reachable:
  "playbackInv (initialPlayer ctx) \<and> samplerInv (initialPlayer ctx) \<and>
   (\<forall>s e. playbackInv s \<and> samplerInv s \<and> (isLoadEvent e \<longrightarrow> \<not> isPlaying s) \<longrightarrow>
      playbackInv (apply_event e s) \<and> samplerInv (apply_event e s)) \<and>
   (\<forall>s t. samplerInv s \<and> t < length (intervals s) \<and> ivActive (intervals s ! t) \<longrightarrow>
      currentTime (apply_event (Tick t) s) =
        min (ctxTime s - startTimeRef s) (duration s)) \<and>
   (\<forall>es. quietLoads es (initialPlayer ctx) \<longrightarrow> playbackInv (run es (initialPlayer ctx)))"
proof -
  have "currentTime (apply_event (Tick t) s) = min (ctxTime s - startTimeRef s) (duration s)"
    if "samplerInv s \<and> t < length (intervals s) \<and> ivActive (intervals s ! t)" for s t
    using that by (simp add: apply_event_def timerTick_def samplerInv_def Let_def)
  then show ?thesis
    using inv_initial[of ctx] inv_step inv_run[of "initialPlayer ctx"] by blast
qed

text \<open>
  The theorem along one run: a clip of two frames is loaded, played, sampled, paused and
  resumed, and plays to its end, where the elapsed time is clamped to the duration by the
  sampler and reset to \<open>0\<close> by the \<^verbatim>\<open>ended\<close> handler.
\<close>

theorem playbackInv_reachable_witness:
  "quietLoads [Decoded [0, 0, 0, 0], Play, Advance (1 / 24000), Tick 0, Pause, EndedEvent 0,
               Play, Advance (1 / 8000), Tick 1, EndedEvent 1] (initialPlayer exampleContext) \<and>
   playbackInv (run [Decoded [0, 0, 0, 0], Play, Advance (1 / 24000), Tick 0, Pause,
                     EndedEvent 0, Play, Advance (1 / 8000), Tick 1, EndedEvent 1]
                  (initialPlayer exampleContext)) \<and>
   currentTime (run [Decoded [0, 0, 0, 0], Play, Advance (1 / 24000), Tick 0, Pause,
                     EndedEvent 0, Play, Advance (1 / 8000), Tick 1]
                  (initialPlayer exampleContext))
     = 1 / 12000 \<and>
   currentTime (run [Decoded [0, 0, 0, 0], Play, Advance (1 / 24000), Tick 0, Pause,
                     EndedEvent 0, Play, Advance (1 / 8000), Tick 1, EndedEvent 1]
                  (initialPlayer exampleContext)) = 0"
proof -
  let ?es = "[Decoded [0, 0, 0, 0], Play, Advance (1 / 24000), Tick 0, Pause, EndedEvent 0,
              Play, Advance (1 / 8000), Tick 1, EndedEvent 1]"
  have q: "quietLoads ?es (initialPlayer exampleContext)"
    by (simp add: processAudio_ok player_defs)
  with playbackInv_reachable[of exampleContext]
  have "playbackInv (run ?es (initialPlayer exampleContext))" by blast
  moreover have "currentTime (run [Decoded [0, 0, 0, 0], Play, Advance (1 / 24000), Tick 0,
                     Pause, EndedEvent 0, Play, Advance (1 / 8000), Tick 1]
                   (initialPlayer exampleContext))
     = 1 / 12000"
    by (simp add: processAudio_ok player_defs bufDuration_def decodePcmData_cases)
  moreover have "currentTime (run ?es (initialPlayer exampleContext)) = 0"
    by (simp add: processAudio_ok player_defs bufDuration_def decodePcmData_cases)
  ultimately show ?thesis using q by simp
qed

text \<open>
  Claim C8 as stated fails when a clip is replaced during playback. After the cleanup has
  stopped the source, \<open>isPlaying\<close> still holds (it is reset by the \<^verbatim>\<open>ended\<close> handler
  only), so the state is playing with no active source. And when \<open>play\<close> is called after
  the cleanup and before the new clip is decoded, the sampler keeps the duration of the
  old clip (two frames) and moves the elapsed time beyond the duration of the new one
  (one frame).
\<close>

theorem playbackInv_broken_by_load:
  "isPlaying (run [Decoded [0, 0, 0, 0], Play, Cleanup] (initialPlayer exampleContext)) \<and>
   sourceRef (run [Decoded [0, 0, 0, 0], Play, Cleanup] (initialPlayer exampleContext))
     = Some 0 \<and>
   srcStatus (nodes (run [Decoded [0, 0, 0, 0], Play, Cleanup]
                       (initialPlayer exampleContext)) ! 0) = Stopped \<and>
   \<not> playbackInv (run [Decoded [0, 0, 0, 0], Play, Cleanup] (initialPlayer exampleContext)) \<and>
   currentTime (run [Decoded [0, 0, 0, 0], Cleanup, Play, Decoded [0, 0], Advance (1 / 12000),
                     Tick 0] (initialPlayer exampleContext)) = 1 / 12000 \<and>
   duration (run [Decoded [0, 0, 0, 0], Cleanup, Play, Decoded [0, 0], Advance (1 / 12000),
                  Tick 0] (initialPlayer exampleContext)) = 1 / 24000 \<and>
   \<not> playbackInv (run [Decoded [0, 0, 0, 0], Cleanup, Play, Decoded [0, 0],
                       Advance (1 / 12000), Tick 0] (initialPlayer exampleContext))"
  by (simp add: processAudio_ok player_defs)

section \<open>The theme catalog and the prompt\<close>

lemma length_ALL_THEMES: "length ALL_THEMES = 18"
  by (simp add: ALL_THEMES_def VISIBLE_THEMES_def)

lemma ALL_THEMES_explicit:
  "ALL_THEMES =
     [''Perd'' @ [CHR 0xE3] @ ''o'', ''F'' @ [CHR 0xE9], ''Amor'',
      ''Gratid'' @ [CHR 0xE3] @ ''o'', ''Prop'' @ [CHR 0xF3] @ ''sito'', ''Coragem'',
      ''Humildade'',
      ''Esperan'' @ [CHR 0xE7] @ ''a'', ''Supera'' @ [CHR 0xE7, CHR 0xE3] @ ''o'',
      ''Depress'' @ [CHR 0xE3] @ ''o'', ''Finan'' @ [CHR 0xE7] @ ''as'', ''Casamento'',
      ''Fam'' @ [CHR 0xED] @ ''lia'', ''Paci'' @ [CHR 0xEA] @ ''ncia'',
      ''Perseveran'' @ [CHR 0xE7] @ ''a'', ''Confian'' @ [CHR 0xE7] @ ''a'', ''Sabedoria'',
      ''Transforma'' @ [CHR 0xE7, CHR 0xE3] @ ''o'']"
  by (simp add: ALL_THEMES_def VISIBLE_THEMES_def)

lemma distinct_ALL_THEMES: "distinct ALL_THEMES"
  by (simp add: ALL_THEMES_explicit)

lemma sentinel_notin_ALL_THEMES: "''Surpreenda-me'' \<notin> set ALL_THEMES"
  by (simp add: ALL_THEMES_def VISIBLE_THEMES_def)

lemma themes_without_sentinel: "t \<in> set ALL_THEMES \<Longrightarrow> \<not> sublist ''Surpreenda-me'' t"
  by (auto simp: ALL_THEMES_explicit sublist_Cons_right)

text \<open>
  Where a word can occur in a text put together from pieces: not before its first
  character occurs, and not across a character it does not contain.
\<close>

lemma sublist_skip_prefix:
  "x \<notin> set A \<Longrightarrow> sublist (x # w) (A @ X) \<longleftrightarrow> sublist (x # w) X"
  by (induction A) (auto simp: sublist_Cons_right)

lemma sublist_no_first: "x \<notin> set A \<Longrightarrow> \<not> sublist (x # w) A"
  using sublist_skip_prefix[of x A w "[]"] by simp

lemma sublist_split_at:
  assumes "c \<notin> set w"
  shows "sublist w (X @ c # Y) \<longleftrightarrow> sublist w X \<or> sublist w Y"
proof
  assume "sublist w (X @ c # Y)"
  then consider "sublist w X" | "sublist w (c # Y)"
    | w1 w2 where "w = w1 @ w2" "suffix w1 X" "prefix w2 (c # Y)"
    by (auto simp: sublist_append)
  then show "sublist w X \<or> sublist w Y"
  proof cases
    case 1
    then show ?thesis by simp
  next
    case 2
    then have "prefix w (c # Y) \<or> sublist w Y" by (simp add: sublist_Cons_right)
    moreover have "prefix w (c # Y) \<Longrightarrow> w = []"
      using assms by (cases w) auto
    ultimately show ?thesis by auto
  next
    case 3
    have "w2 = []" using 3(3) assms 3(1) by (cases w2) auto
    then show ?thesis using 3 by auto
  qed
next
  assume "sublist w X \<or> sublist w Y"
  then show "sublist w (X @ c # Y)"
    by (metis sublist_append sublist_Cons_right)
qed

text \<open>
  The fixed parts of the revelation prompt hold no capital S, and the sentinel holds
  neither a space nor a quotation mark: it occurs in the prompt exactly when it occurs in
  the name or in the theme.
\<close>

lemma prompt_sentinel:
  "sublist ''Surpreenda-me'' (revelationPrompt name theme) \<longleftrightarrow>
     sublist ''Surpreenda-me'' name \<or> sublist ''Surpreenda-me'' theme"
proof -
  let ?S = "''Surpreenda-me''"
  let ?A = "''Crie uma reflex'' @ [CHR 0xE3] @ ''o b'' @ [CHR 0xED] @
            ''blica inspiradora e pessoal para ''"
  let ?B = "''sobre o tema '' @ [CHR 0x22]"
  let ?C = "''. A mensagem deve ser calorosa, encorajadora, direta e ter no m'' @ [CHR 0xE1] @
     ''ximo 1 minuto de dura'' @ [CHR 0xE7, CHR 0xE3] @ ''o quando lida. N'' @ [CHR 0xE3] @
     ''o inclua sauda'' @ [CHR 0xE7, CHR 0xF5] @ ''es como '' @ [CHR 0x22] @ ''Ol'' @
     [CHR 0xE1, CHR 0x22] @ '' ou '' @ [CHR 0x22] @ ''Querido(a)'' @ [CHR 0x22] @ ''. V'' @
     [CHR 0xE1] @ '' direto para a mensagem.''"
  have p: "revelationPrompt name theme =
             ?A @ (name @ CHR '' '' # (?B @ (theme @ CHR 0x22 # ?C)))"
    by (simp add: revelationPrompt_def)
  have A: "CHR ''S'' \<notin> set ?A" by simp
  have B: "CHR ''S'' \<notin> set ?B" by simp
  have C: "CHR ''S'' \<notin> set ?C" by simp
  have sp: "CHR '' '' \<notin> set ?S" by simp
  have qu: "CHR 0x22 \<notin> set ?S" by simp
  have "sublist ?S (revelationPrompt name theme) \<longleftrightarrow>
        sublist ?S (name @ CHR '' '' # (?B @ (theme @ CHR 0x22 # ?C)))"
    unfolding p by (rule sublist_skip_prefix[OF A])
  also have "\<dots> \<longleftrightarrow> sublist ?S name \<or> sublist ?S (?B @ (theme @ CHR 0x22 # ?C))"
    by (rule sublist_split_at[OF sp])
  also have "sublist ?S (?B @ (theme @ CHR 0x22 # ?C)) \<longleftrightarrow> sublist ?S (theme @ CHR 0x22 # ?C)"
    by (rule sublist_skip_prefix[OF B])
  also have "\<dots> \<longleftrightarrow> sublist ?S theme \<or> sublist ?S ?C"
    by (rule sublist_split_at[OF qu])
  also have "sublist ?S ?C \<longleftrightarrow> False"
    using sublist_no_first[OF C] by blast
  finally show ?thesis by simp
qed

text \<open>
  The index of the random theme. For a random value \<open>r\<close> between \<open>0\<close> and
  \<open>1 - 1 / 2 ^ 53\<close> the product \<open>r * 18\<close>, rounded to a double, stays below \<open>18\<close>, so the
  index is inside the catalog. The rounding moves the product by less than \<open>1 / 2 ^ 48\<close>
  and not across a whole number: entry \<open>k\<close> is drawn when \<open>18 * r\<close> lies between \<open>k\<close> and
  \<open>k + 1 - 1 / 2 ^ 48\<close>, and only when it lies between \<open>k - 1 / 2 ^ 48\<close> and \<open>k + 1\<close>.
\<close>

lemma randomProduct_bounds:
  assumes "0 \<le> r" "r \<le> 1 - 1 / 2 ^ 53"
  shows "0 \<le> jsMul r 18" "jsMul r 18 < 18"
proof -
  let ?x = "r * 18"
  have x0: "0 \<le> ?x" using assms(1) by simp
  show "0 \<le> jsMul r 18" unfolding jsMul_def by (rule toDouble_nonneg[OF x0])
  have x18: "?x \<le> 18 - 18 / 2 ^ 53" using assms(2) by simp
  then have "?x < 18" by simp
  then have "?x / 2 ^ 53 < 18 / 2 ^ 53" by (simp add: divide_strict_right_mono)
  moreover have "toDouble ?x \<le> ?x + ?x / 2 ^ 53" using toDouble_near[OF x0] by linarith
  ultimately have "toDouble ?x < 18" using x18 by linarith
  then show "jsMul r 18 < 18" by (simp add: jsMul_def)
qed

lemma randomTheme_index:
  assumes "0 \<le> r" "r \<le> 1 - 1 / 2 ^ 53"
  shows "randomTheme r = ALL_THEMES ! nat \<lfloor>jsMul r 18\<rfloor>" "nat \<lfloor>jsMul r 18\<rfloor> < 18"
proof -
  have lo: "0 \<le> \<lfloor>jsMul r 18\<rfloor>" using randomProduct_bounds(1)[OF assms] by simp
  have hi: "\<lfloor>jsMul r 18\<rfloor> < 18"
    using randomProduct_bounds(2)[OF assms] by (simp add: floor_less_iff)
  from lo hi show k: "nat \<lfloor>jsMul r 18\<rfloor> < 18" by linarith
  show "randomTheme r = ALL_THEMES ! nat \<lfloor>jsMul r 18\<rfloor>"
    using lo k by (simp add: randomTheme_def length_ALL_THEMES Let_def)
qed

lemma randomTheme_share:
  assumes "0 \<le> r" "r \<le> 1 - 1 / 2 ^ 53" "k < 18"
  shows "real k \<le> 18 * r \<and> 18 * r \<le> real k + 1 - 1 / 2 ^ 48 \<longrightarrow>
           randomTheme r = ALL_THEMES ! k"
    and "randomTheme r = ALL_THEMES ! k \<longrightarrow>
           real k - 1 / 2 ^ 48 \<le> 18 * r \<and> 18 * r < real k + 1"
proof -
  let ?x = "r * 18"
  let ?d = "toDouble ?x"
  have x0: "0 \<le> ?x" using assms(1) by simp
  have "?x \<le> 18" using assms(2) by simp
  then have x53: "?x < 2 ^ 53" by simp
  have "?x / 2 ^ 53 \<le> 18 / 2 ^ 53" using \<open>?x \<le> 18\<close> by (simp add: divide_right_mono)
  also have "\<dots> < 1 / 2 ^ 48" by simp
  finally have small: "?x / 2 ^ 53 < 1 / 2 ^ 48" .
  have near: "\<bar>?d - ?x\<bar> \<le> ?x / 2 ^ 53" by (rule toDouble_near[OF x0])
  have eq: "randomTheme r = ALL_THEMES ! k \<longleftrightarrow> \<lfloor>?d\<rfloor> = int k"
  proof -
    have "randomTheme r = ALL_THEMES ! k \<longleftrightarrow> nat \<lfloor>jsMul r 18\<rfloor> = k"
      using randomTheme_index[OF assms(1,2)] assms(3) distinct_ALL_THEMES
      by (simp add: nth_eq_iff_index_eq length_ALL_THEMES)
    also have "\<dots> \<longleftrightarrow> \<lfloor>jsMul r 18\<rfloor> = int k"
      using randomProduct_bounds(1)[OF assms(1,2)] by auto
    finally show ?thesis by (simp add: jsMul_def)
  qed
  show "real k \<le> 18 * r \<and> 18 * r \<le> real k + 1 - 1 / 2 ^ 48 \<longrightarrow>
           randomTheme r = ALL_THEMES ! k"
  proof
    assume a: "real k \<le> 18 * r \<and> 18 * r \<le> real k + 1 - 1 / 2 ^ 48"
    then have "real k \<le> ?x" by (simp add: mult.commute)
    then have lo: "real k \<le> ?d" by (rule toDouble_whole_ge[OF x0 x53])
    have "?d \<le> ?x + ?x / 2 ^ 53" using near by linarith
    also have "\<dots> < ?x + 1 / 2 ^ 48" using small by simp
    also have "\<dots> \<le> real k + 1" using a by (simp add: mult.commute)
    finally have hi: "?d < real k + 1" .
    from lo hi have "\<lfloor>?d\<rfloor> = int k" by (simp add: floor_eq_iff)
    then show "randomTheme r = ALL_THEMES ! k" by (simp only: eq)
  qed
  show "randomTheme r = ALL_THEMES ! k \<longrightarrow>
           real k - 1 / 2 ^ 48 \<le> 18 * r \<and> 18 * r < real k + 1"
  proof
    assume "randomTheme r = ALL_THEMES ! k"
    then have "\<lfloor>?d\<rfloor> = int k" by (simp only: eq)
    then have lo: "real k \<le> ?d" and hi: "?d < real k + 1" by (simp_all add: floor_eq_iff)
    have "?x < real k + 1"
    proof (rule ccontr)
      assume "\<not> ?x < real k + 1"
      then have "real (k + 1) \<le> ?x" by simp
      then have "real (k + 1) \<le> ?d" by (rule toDouble_whole_ge[OF x0 x53])
      with hi show False by simp
    qed
    moreover have "?d - ?x \<le> ?x / 2 ^ 53" using near by linarith
    then have "real k - 1 / 2 ^ 48 \<le> ?x" using lo small by linarith
    ultimately show "real k - 1 / 2 ^ 48 \<le> 18 * r \<and> 18 * r < real k + 1"
      by (simp add: mult.commute)
  qed
qed

lemmas handler_defs = handleGenerateRevelation_def beginGenerateRevelation_def
  handleGeneratePrayer_def saveRevelationToDB_def getGeminiText_def getGeminiAudio_def Let_def

lemma messages_differ: "revelationErrorMessage \<noteq> prayerErrorMessage"
  by (simp add: revelationErrorMessage_def prayerErrorMessage_def)

section \<open>Claims about the generation orchestrator\<close>

text \<open>
  Claim C5. When the text model answers the prompt and the speech call for that text
  fails, the run of \<^verbatim>\<open>handleGenerateRevelation\<close> leaves the object store as it was (no
  record is written for the day), leaves the revelation held in the state as it was (the
  generated text is dropped), shows the generic message of the revelation in the error
  state and ends the loading state; auto-play is not requested.
\<close>

theorem speech_failure_discards:
  assumes "beginGenerateRevelation sv name theme s = (s1, finalTheme, promptText)"
      and "getGeminiText sv promptText = Inr text"
      and "getGeminiAudio sv text = Inl e"
  shows "revelacoes (handleGenerateRevelation sv name theme s) = revelacoes s \<and>
         revelationState (handleGenerateRevelation sv name theme s) = revelationState s \<and>
         errorMsg (handleGenerateRevelation sv name theme s) = revelationErrorMessage \<and>
         \<not> isLoading (handleGenerateRevelation sv name theme s) \<and>
         playRevelationOnLoad (handleGenerateRevelation sv name theme s) = playRevelationOnLoad s \<and>
         sentPrompts (handleGenerateRevelation sv name theme s) = sentPrompts s @ [promptText] \<and>
         sentSpeech (handleGenerateRevelation sv name theme s) = sentSpeech s @ [text]"
  using assms by (auto simp: handleGenerateRevelation_def beginGenerateRevelation_def Let_def)

text \<open>
  The theorem on a fresh state, with a text model that answers and a speech model that
  returns no audio part.
\<close>

theorem speech_failure_discards_witness:
  "getGeminiText \<lparr>textModel = (\<lambda>p. Some ''Confie.''), speechModel = (\<lambda>t. NoInlineData),
                   putSucceeds = True, randomValue = 1 / 2\<rparr>
     (revelationPrompt ''Ana'' ''Amor'') = Inr ''Confie.'' \<and>
   getGeminiAudio \<lparr>textModel = (\<lambda>p. Some ''Confie.''), speechModel = (\<lambda>t. NoInlineData),
                   putSucceeds = True, randomValue = 1 / 2\<rparr> ''Confie.''
     = Inl NoAudioDataReceived \<and>
   revelacoes (handleGenerateRevelation
       \<lparr>textModel = (\<lambda>p. Some ''Confie.''), speechModel = (\<lambda>t. NoInlineData),
        putSucceeds = True, randomValue = 1 / 2\<rparr> ''Ana'' ''Amor'' (initialApp ''03/11/2026''))
     ''03/11/2026'' = None \<and>
   revelationState (handleGenerateRevelation
       \<lparr>textModel = (\<lambda>p. Some ''Confie.''), speechModel = (\<lambda>t. NoInlineData),
        putSucceeds = True, randomValue = 1 / 2\<rparr> ''Ana'' ''Amor'' (initialApp ''03/11/2026''))
     = None \<and>
   errorMsg (handleGenerateRevelation
       \<lparr>textModel = (\<lambda>p. Some ''Confie.''), speechModel = (\<lambda>t. NoInlineData),
        putSucceeds = True, randomValue = 1 / 2\<rparr> ''Ana'' ''Amor'' (initialApp ''03/11/2026''))
     = revelationErrorMessage"
proof -
  let ?sv = "\<lparr>textModel = (\<lambda>p. Some ''Confie.''), speechModel = (\<lambda>t. NoInlineData),
              putSucceeds = True, randomValue = 1 / 2\<rparr>"
  let ?s = "initialApp ''03/11/2026''"
  have b: "beginGenerateRevelation ?sv ''Ana'' ''Amor'' ?s =
             (?s\<lparr>isLoading := True, errorMsg := [], prayerState := None\<rparr>, ''Amor'',
              revelationPrompt ''Ana'' ''Amor'')"
    by (simp add: beginGenerateRevelation_def Let_def)
  have t: "getGeminiText ?sv (revelationPrompt ''Ana'' ''Amor'') = Inr ''Confie.''"
    by (simp add: getGeminiText_def)
  have a: "getGeminiAudio ?sv ''Confie.'' = Inl NoAudioDataReceived"
    by (simp add: getGeminiAudio_def)
  from speech_failure_discards[OF b t a] t a show ?thesis
    by (simp add: initialApp_def)
qed


text \<open>
  Claim C6. Called with the sentinel theme and a random value \<open>r\<close> that
  \<^verbatim>\<open>Math.random()\<close> can return, the handler replaces the theme, before the prompt is
  built, by an entry of the catalog, which holds 18 distinct themes: the seven themes of
  the user-visible list (all its entries but the sentinel option itself) and eleven
  more, and not the sentinel. The entry is the one at the whole part of the product
  \<open>r * 18\<close>, which the program computes as a double: entry \<open>k\<close> is drawn when \<open>18 * r\<close> lies
  between \<open>k\<close> and \<open>k + 1 - 1 / 2 ^ 48\<close> and only when it lies between \<open>k - 1 / 2 ^ 48\<close> and
  \<open>k + 1\<close>, so each entry is drawn for an interval of \<open>r\<close> of length \<open>1 / 18\<close>, give or take
  what the rounding of the product moves its ends. The prompt built from the replaced
  theme is the one prompt sent; the theme in it is not the sentinel and does not contain
  it, and the sentinel string occurs in the prompt exactly when it occurs in the name that
  the user typed.
\<close>

theorem sentinel_theme_resolved:
  assumes "0 \<le> randomValue sv" "randomValue sv \<le> 1 - 1 / 2 ^ 53"
  shows "(\<exists>s1 finalTheme.
            beginGenerateRevelation sv name ''Surpreenda-me'' s =
              (s1, finalTheme, revelationPrompt name finalTheme) \<and>
            finalTheme = ALL_THEMES ! nat \<lfloor>jsMul (randomValue sv) 18\<rfloor> \<and>
            nat \<lfloor>jsMul (randomValue sv) 18\<rfloor> < length ALL_THEMES \<and>
            finalTheme \<in> set ALL_THEMES \<and>
            finalTheme \<noteq> ''Surpreenda-me'' \<and>
            \<not> sublist ''Surpreenda-me'' finalTheme \<and>
            (\<forall>k<18.
               (real k \<le> 18 * randomValue sv \<and>
                18 * randomValue sv \<le> real k + 1 - 1 / 2 ^ 48 \<longrightarrow>
                  finalTheme = ALL_THEMES ! k) \<and>
               (finalTheme = ALL_THEMES ! k \<longrightarrow>
                  real k - 1 / 2 ^ 48 \<le> 18 * randomValue sv \<and>
                  18 * randomValue sv < real k + 1)) \<and>
            sentPrompts (handleGenerateRevelation sv name ''Surpreenda-me'' s) =
              sentPrompts s @ [revelationPrompt name finalTheme] \<and>
            (sublist ''Surpreenda-me'' (revelationPrompt name finalTheme) \<longleftrightarrow>
               sublist ''Surpreenda-me'' name)) \<and>
         length ALL_THEMES = 18 \<and> distinct ALL_THEMES \<and>
         ''Surpreenda-me'' \<notin> set ALL_THEMES \<and>
         length (filter (\<lambda>t. t \<noteq> ''Surpreenda-me'') VISIBLE_THEMES) = 7 \<and>
         set VISIBLE_THEMES - {''Surpreenda-me''} \<subseteq> set ALL_THEMES \<and>
         set VISIBLE_THEMES - {''Surpreenda-me''} \<noteq> set ALL_THEMES"
proof -
  let ?r = "randomValue sv"
  let ?t = "randomTheme ?r"
  have i: "?t = ALL_THEMES ! nat \<lfloor>jsMul ?r 18\<rfloor>" and k: "nat \<lfloor>jsMul ?r 18\<rfloor> < 18"
    using randomTheme_index[OF assms] by simp_all
  then have m: "?t \<in> set ALL_THEMES" by (simp add: length_ALL_THEMES)
  then have ne: "?t \<noteq> ''Surpreenda-me''" using sentinel_notin_ALL_THEMES by auto
  have k': "nat \<lfloor>jsMul ?r 18\<rfloor> < length ALL_THEMES" using k by (simp add: length_ALL_THEMES)
  have ns: "\<not> sublist ''Surpreenda-me'' ?t" by (rule themes_without_sentinel[OF m])
  have b: "beginGenerateRevelation sv name ''Surpreenda-me'' s =
             (s\<lparr>isLoading := True, errorMsg := [], prayerState := None\<rparr>, ?t,
              revelationPrompt name ?t)"
    by (simp add: beginGenerateRevelation_def Let_def)
  have sh: "\<forall>k<18.
               (real k \<le> 18 * ?r \<and> 18 * ?r \<le> real k + 1 - 1 / 2 ^ 48 \<longrightarrow>
                  ?t = ALL_THEMES ! k) \<and>
               (?t = ALL_THEMES ! k \<longrightarrow>
                  real k - 1 / 2 ^ 48 \<le> 18 * ?r \<and> 18 * ?r < real k + 1)"
    using randomTheme_share[OF assms] by blast
  have sp: "sentPrompts (handleGenerateRevelation sv name ''Surpreenda-me'' s) =
              sentPrompts s @ [revelationPrompt name ?t]"
    by (simp add: handleGenerateRevelation_def b saveRevelationToDB_def Let_def
             split: sum.splits)
  have su: "sublist ''Surpreenda-me'' (revelationPrompt name ?t) \<longleftrightarrow>
              sublist ''Surpreenda-me'' name"
    using prompt_sentinel[of name ?t] ns by simp
  have seven: "length (filter (\<lambda>t. t \<noteq> ''Surpreenda-me'') VISIBLE_THEMES) = 7"
    by (simp add: VISIBLE_THEMES_def)
  have v: "set VISIBLE_THEMES - {''Surpreenda-me''} \<subseteq> set ALL_THEMES"
    by (auto simp: ALL_THEMES_def)
  have "''Sabedoria'' \<in> set ALL_THEMES" "''Sabedoria'' \<notin> set VISIBLE_THEMES"
    by (simp_all add: ALL_THEMES_def VISIBLE_THEMES_def)
  then have pr: "set VISIBLE_THEMES - {''Surpreenda-me''} \<noteq> set ALL_THEMES" by blast
  have "\<exists>s1 finalTheme.
            beginGenerateRevelation sv name ''Surpreenda-me'' s =
              (s1, finalTheme, revelationPrompt name finalTheme) \<and>
            finalTheme = ALL_THEMES ! nat \<lfloor>jsMul (randomValue sv) 18\<rfloor> \<and>
            nat \<lfloor>jsMul (randomValue sv) 18\<rfloor> < length ALL_THEMES \<and>
            finalTheme \<in> set ALL_THEMES \<and>
            finalTheme \<noteq> ''Surpreenda-me'' \<and>
            \<not> sublist ''Surpreenda-me'' finalTheme \<and>
            (\<forall>k<18.
               (real k \<le> 18 * randomValue sv \<and>
                18 * randomValue sv \<le> real k + 1 - 1 / 2 ^ 48 \<longrightarrow>
                  finalTheme = ALL_THEMES ! k) \<and>
               (finalTheme = ALL_THEMES ! k \<longrightarrow>
                  real k - 1 / 2 ^ 48 \<le> 18 * randomValue sv \<and>
                  18 * randomValue sv < real k + 1)) \<and>
            sentPrompts (handleGenerateRevelation sv name ''Surpreenda-me'' s) =
              sentPrompts s @ [revelationPrompt name finalTheme] \<and>
            (sublist ''Surpreenda-me'' (revelationPrompt name finalTheme) \<longleftrightarrow>
               sublist ''Surpreenda-me'' name)"
    by (intro exI conjI)
       (rule b, rule i, rule k', rule m, rule ne, rule ns, rule sh, rule sp, rule su)
  with seven v pr length_ALL_THEMES distinct_ALL_THEMES sentinel_notin_ALL_THEMES
  show ?thesis by blast
qed

text \<open>The theorem for the name Ana and the random value \<open>1 / 2\<close>, which draws entry 9.\<close>

theorem sentinel_theme_resolved_witness:
  "(0 :: real) \<le> 1 / 2 \<and> (1 / 2 :: real) \<le> 1 - 1 / 2 ^ 53 \<and>
   beginGenerateRevelation
     \<lparr>textModel = (\<lambda>p. None), speechModel = (\<lambda>t. SpeechFails), putSucceeds = True,
      randomValue = 1 / 2\<rparr> ''Ana'' ''Surpreenda-me'' (initialApp ''03/11/2026'') =
     ((initialApp ''03/11/2026'')\<lparr>isLoading := True, errorMsg := [], prayerState := None\<rparr>,
      ''Depress'' @ [CHR 0xE3] @ ''o'',
      revelationPrompt ''Ana'' (''Depress'' @ [CHR 0xE3] @ ''o'')) \<and>
   \<not> sublist ''Surpreenda-me'' (revelationPrompt ''Ana'' (''Depress'' @ [CHR 0xE3] @ ''o''))"
proof -
  let ?sv = "\<lparr>textModel = (\<lambda>p. None), speechModel = (\<lambda>t. SpeechFails), putSucceeds = True,
              randomValue = 1 / 2\<rparr>"
  have r: "0 \<le> randomValue ?sv" "randomValue ?sv \<le> 1 - 1 / 2 ^ 53" by simp_all
  have n: "\<not> sublist ''Surpreenda-me'' ''Ana''" by (simp add: sublist_Cons_right)
  have d: "ALL_THEMES ! 9 = ''Depress'' @ [CHR 0xE3] @ ''o''"
    by (simp add: ALL_THEMES_explicit)
  have k: "real 9 \<le> 18 * randomValue ?sv \<and> 18 * randomValue ?sv \<le> real 9 + 1 - 1 / 2 ^ 48"
    by simp
  from sentinel_theme_resolved[OF r, of "''Ana''" "initialApp ''03/11/2026''"]
  obtain s1 finalTheme where
    b: "beginGenerateRevelation ?sv ''Ana'' ''Surpreenda-me'' (initialApp ''03/11/2026'') =
       (s1, finalTheme, revelationPrompt ''Ana'' finalTheme)"
    and s: "\<forall>k<18.
               (real k \<le> 18 * randomValue ?sv \<and>
                18 * randomValue ?sv \<le> real k + 1 - 1 / 2 ^ 48 \<longrightarrow>
                  finalTheme = ALL_THEMES ! k) \<and>
               (finalTheme = ALL_THEMES ! k \<longrightarrow>
                  real k - 1 / 2 ^ 48 \<le> 18 * randomValue ?sv \<and>
                  18 * randomValue ?sv < real k + 1)"
    and u: "sublist ''Surpreenda-me'' (revelationPrompt ''Ana'' finalTheme) \<longleftrightarrow>
       sublist ''Surpreenda-me'' ''Ana''"
    by blast
  have "finalTheme = ALL_THEMES ! 9" using s[rule_format, of 9] k by simp
  with d have f: "finalTheme = ''Depress'' @ [CHR 0xE3] @ ''o''" by simp
  have s1: "s1 = (initialApp ''03/11/2026'')\<lparr>isLoading := True, errorMsg := [], prayerState := None\<rparr>"
    using b by (simp add: beginGenerateRevelation_def Let_def)
  show ?thesis using b u n unfolding f s1 by simp
qed

text \<open>
  Claim C9, as the code has it. Each operation surfaces one generic message of its own,
  and the two messages differ. There is one error state for both: what it holds after a
  run of \<^verbatim>\<open>handleGenerateRevelation\<close> is decided by that run alone (empty after success,
  the revelation's message after a failure of the text call, of the speech call or of the
  store), and likewise after a run of \<^verbatim>\<open>handleGeneratePrayer\<close> on a state with a
  revelation (empty, or the prayer's message); whatever the other operation had left
  there is gone. Without a revelation \<^verbatim>\<open>handleGeneratePrayer\<close> returns at once and the
  error state keeps its content.
\<close>

theorem error_slot_shared:
  "errorMsg (handleGenerateRevelation sv name theme s) =
     (case getGeminiText sv (snd (snd (beginGenerateRevelation sv name theme s))) of
        Inl e \<Rightarrow> revelationErrorMessage
      | Inr text \<Rightarrow>
          (case getGeminiAudio sv text of
             Inl e \<Rightarrow> revelationErrorMessage
           | Inr audio \<Rightarrow> if putSucceeds sv then [] else revelationErrorMessage)) \<and>
   errorMsg (handleGeneratePrayer sv s) =
     (case revelationState s of
        None \<Rightarrow> errorMsg s
      | Some r \<Rightarrow>
          (case getGeminiText sv (prayerPrompt (rev_theme r) (rev_name r)) of
             Inl e \<Rightarrow> prayerErrorMessage
           | Inr text \<Rightarrow>
               (case getGeminiAudio sv text of
                  Inl e \<Rightarrow> prayerErrorMessage
                | Inr audio \<Rightarrow> []))) \<and>
   revelationErrorMessage \<noteq> [] \<and> prayerErrorMessage \<noteq> [] \<and>
   revelationErrorMessage \<noteq> prayerErrorMessage"
proof (intro conjI)
  show "errorMsg (handleGenerateRevelation sv name theme s) =
     (case getGeminiText sv (snd (snd (beginGenerateRevelation sv name theme s))) of
        Inl e \<Rightarrow> revelationErrorMessage
      | Inr text \<Rightarrow>
          (case getGeminiAudio sv text of
             Inl e \<Rightarrow> revelationErrorMessage
           | Inr audio \<Rightarrow> if putSucceeds sv then [] else revelationErrorMessage))"
    by (simp add: handleGenerateRevelation_def beginGenerateRevelation_def
          saveRevelationToDB_def Let_def split: sum.splits)
  show "errorMsg (handleGeneratePrayer sv s) =
     (case revelationState s of
        None \<Rightarrow> errorMsg s
      | Some r \<Rightarrow>
          (case getGeminiText sv (prayerPrompt (rev_theme r) (rev_name r)) of
             Inl e \<Rightarrow> prayerErrorMessage
           | Inr text \<Rightarrow>
               (case getGeminiAudio sv text of
                  Inl e \<Rightarrow> prayerErrorMessage
                | Inr audio \<Rightarrow> [])))"
    by (simp add: handleGeneratePrayer_def Let_def split: option.splits sum.splits)
  show "revelationErrorMessage \<noteq> []" by (simp add: revelationErrorMessage_def)
  show "prayerErrorMessage \<noteq> []" by (simp add: prayerErrorMessage_def)
  show "revelationErrorMessage \<noteq> prayerErrorMessage" by (rule messages_differ)
qed

text \<open>
  The theorem at a failing revelation on a fresh state, and at a succeeding prayer on a
  state that shows the prayer's message.
\<close>

theorem error_slot_shared_witness:
  "errorMsg (handleGenerateRevelation
      \<lparr>textModel = (\<lambda>p. None), speechModel = (\<lambda>t. SpeechFails), putSucceeds = True,
       randomValue = 0\<rparr> ''Ana'' ''Amor'' (initialApp ''03/11/2026''))
     = revelationErrorMessage \<and>
   errorMsg (handleGeneratePrayer
      \<lparr>textModel = (\<lambda>p. Some ''Senhor''), speechModel = (\<lambda>t. InlineData [0, 0]),
       putSucceeds = True, randomValue = 0\<rparr>
      ((initialApp ''03/11/2026'')
         \<lparr>revelationState := Some \<lparr>rev_date = ''03/11/2026'', rev_text = ''Confie.'',
                                    rev_audio = [0, 0], rev_name = ''Ana'',
                                    rev_theme = ''Amor''\<rparr>,
          errorMsg := prayerErrorMessage\<rparr>))
     = []"
  using error_slot_shared[of "\<lparr>textModel = (\<lambda>p. None), speechModel = (\<lambda>t. SpeechFails),
          putSucceeds = True, randomValue = 0\<rparr>" "''Ana''" "''Amor''" "initialApp ''03/11/2026''"]
        error_slot_shared[of "\<lparr>textModel = (\<lambda>p. Some ''Senhor''),
          speechModel = (\<lambda>t. InlineData [0, 0]), putSucceeds = True, randomValue = 0\<rparr>"
          "''Ana''" "''Amor''"
          "(initialApp ''03/11/2026'')
         \<lparr>revelationState := Some \<lparr>rev_date = ''03/11/2026'', rev_text = ''Confie.'',
                                    rev_audio = [0, 0], rev_name = ''Ana'',
                                    rev_theme = ''Amor''\<rparr>,
          errorMsg := prayerErrorMessage\<rparr>"]
  by (simp add: getGeminiText_def getGeminiAudio_def initialApp_def)

text \<open>
  Claim C9 as stated fails. A revelation is generated and shown, but the write to the
  store fails: the error state shows the revelation's message. A prayer that fails next
  replaces it by the prayer's message, and a prayer that succeeds next clears it.
\<close>

theorem error_slot_overwritten:
  "revelationState (handleGenerateRevelation
      \<lparr>textModel = (\<lambda>p. Some ''Confie.''), speechModel = (\<lambda>t. InlineData [0, 0]),
       putSucceeds = False, randomValue = 0\<rparr> ''Ana'' ''Amor'' (initialApp ''03/11/2026''))
     = Some \<lparr>rev_date = ''03/11/2026'', rev_text = ''Confie.'', rev_audio = [0, 0],
             rev_name = ''Ana'', rev_theme = ''Amor''\<rparr> \<and>
   errorMsg (handleGenerateRevelation
      \<lparr>textModel = (\<lambda>p. Some ''Confie.''), speechModel = (\<lambda>t. InlineData [0, 0]),
       putSucceeds = False, randomValue = 0\<rparr> ''Ana'' ''Amor'' (initialApp ''03/11/2026''))
     = revelationErrorMessage \<and>
   errorMsg (handleGeneratePrayer
      \<lparr>textModel = (\<lambda>p. None), speechModel = (\<lambda>t. SpeechFails), putSucceeds = False,
       randomValue = 0\<rparr>
      (handleGenerateRevelation
        \<lparr>textModel = (\<lambda>p. Some ''Confie.''), speechModel = (\<lambda>t. InlineData [0, 0]),
         putSucceeds = False, randomValue = 0\<rparr> ''Ana'' ''Amor''
        (initialApp ''03/11/2026'')))
     = prayerErrorMessage \<and>
   errorMsg (handleGeneratePrayer
      \<lparr>textModel = (\<lambda>p. Some ''Senhor''), speechModel = (\<lambda>t. InlineData [0, 0]),
       putSucceeds = False, randomValue = 0\<rparr>
      (handleGenerateRevelation
        \<lparr>textModel = (\<lambda>p. Some ''Confie.''), speechModel = (\<lambda>t. InlineData [0, 0]),
         putSucceeds = False, randomValue = 0\<rparr> ''Ana'' ''Amor''
        (initialApp ''03/11/2026'')))
     = [] \<and>
   revelationErrorMessage \<noteq> prayerErrorMessage \<and> revelationErrorMessage \<noteq> []"
  by (simp add: handler_defs initialApp_def messages_differ)
     (simp add: revelationErrorMessage_def)

text \<open>
  Claim C10. In the state in which \<^verbatim>\<open>handleGenerateRevelation\<close> issues its first request
  the prayer is absent, and nothing has been sent or stored yet; and the prayer is absent
  in the state in which the run ends, whatever the services do.
\<close>

theorem regeneration_resets_prayer:
  "prayerState (fst (beginGenerateRevelation sv name theme s)) = None \<and>
   sentPrompts (fst (beginGenerateRevelation sv name theme s)) = sentPrompts s \<and>
   sentSpeech (fst (beginGenerateRevelation sv name theme s)) = sentSpeech s \<and>
   revelacoes (fst (beginGenerateRevelation sv name theme s)) = revelacoes s \<and>
   prayerState (handleGenerateRevelation sv name theme s) = None"
  by (simp add: handleGenerateRevelation_def beginGenerateRevelation_def
        saveRevelationToDB_def Let_def split: sum.splits)

text \<open>
  The theorem on a state that holds a prayer, once with services that succeed and once
  with a text model that fails.
\<close>

theorem regeneration_resets_prayer_witness:
  "prayerState (handleGenerateRevelation
      \<lparr>textModel = (\<lambda>p. Some ''Confie.''), speechModel = (\<lambda>t. InlineData [0, 0]),
       putSucceeds = True, randomValue = 0\<rparr> ''Ana'' ''Amor''
      ((initialApp ''03/11/2026'')
         \<lparr>prayerState := Some \<lparr>prayer_text = ''Senhor'', prayer_audio = [0, 0]\<rparr>\<rparr>)) = None \<and>
   prayerState (handleGenerateRevelation
      \<lparr>textModel = (\<lambda>p. None), speechModel = (\<lambda>t. SpeechFails),
       putSucceeds = True, randomValue = 0\<rparr> ''Ana'' ''Amor''
      ((initialApp ''03/11/2026'')
         \<lparr>prayerState := Some \<lparr>prayer_text = ''Senhor'', prayer_audio = [0, 0]\<rparr>\<rparr>)) = None"
  using regeneration_resets_prayer[of "\<lparr>textModel = (\<lambda>p. Some ''Confie.''),
          speechModel = (\<lambda>t. InlineData [0, 0]), putSucceeds = True, randomValue = 0\<rparr>"
          "''Ana''" "''Amor''" "(initialApp ''03/11/2026'')
         \<lparr>prayerState := Some \<lparr>prayer_text = ''Senhor'', prayer_audio = [0, 0]\<rparr>\<rparr>"]
        regeneration_resets_prayer[of "\<lparr>textModel = (\<lambda>p. None),
          speechModel = (\<lambda>t. SpeechFails), putSucceeds = True, randomValue = 0\<rparr>"
          "''Ana''" "''Amor''" "(initialApp ''03/11/2026'')
         \<lparr>prayerState := Some \<lparr>prayer_text = ''Senhor'', prayer_audio = [0, 0]\<rparr>\<rparr>"]
  by blast

end
